theory Spec2Isabelle
  imports Complex_Main "HOL-Library.Word"
begin

section \<open>Rendering pipeline: quantisation to glyph levels\<close>

text \<open>
  \<^verbatim>\<open>pixel_array_to_unicode\<close> (src/dicom_cli.py, also src/test_unicode_conversion.py)
  ends with
  \<^verbatim>\<open>
    blocks = [' ', LIGHT SHADE, MEDIUM SHADE, DARK SHADE, FULL BLOCK,
              LEFT SEVEN EIGHTHS BLOCK, LEFT THREE QUARTERS BLOCK, LEFT FIVE EIGHTHS BLOCK]
    block_indices = (resized_array // 32).clip(0, 7)
    line = ''.join(blocks[idx] for idx in row)
  \<close>
  where \<^verbatim>\<open>resized_array\<close> is the \<^verbatim>\<open>uint8\<close> array of the resized image. A glyph is
  modelled by its Unicode code point.
\<close>

type_synonym uint8 = "8 word"

type_synonym glyph = nat

definition blocks :: "glyph list" where
  "blocks = [0x20, 0x2591, 0x2592, 0x2593, 0x2588, 0x2589, 0x258A, 0x258B]"

text \<open>\<^verbatim>\<open>ndarray.clip(lo, hi)\<close> is \<^verbatim>\<open>minimum(maximum(a, lo), hi)\<close>.\<close>

definition np_clip :: "'a::linorder \<Rightarrow> 'a \<Rightarrow> 'a \<Rightarrow> 'a" where
  "np_clip lo hi a = min (max a lo) hi"

text \<open>One entry of \<^verbatim>\<open>block_indices\<close>: \<^verbatim>\<open>(v // 32).clip(0, 7)\<close> on \<^verbatim>\<open>uint8\<close>.\<close>

definition block_index :: "uint8 \<Rightarrow> uint8" where
  "block_index v = np_clip 0 7 (v div 32)"

text \<open>\<^verbatim>\<open>blocks[idx]\<close>; the index is below 8 (lemma \<open>block_index_le\<close> below).\<close>

definition block_glyph :: "uint8 \<Rightarrow> glyph" where
  "block_glyph v = blocks ! unat (block_index v)"

text \<open>
  The share of the character cell a glyph inks, in eighths of the cell, read off the
  Unicode names of the code points in \<^const>\<open>blocks\<close>: SPACE inks nothing, LIGHT, MEDIUM and
  DARK SHADE are the 25\%, 50\% and 75\% shades, FULL BLOCK inks the cell, and
  LEFT SEVEN EIGHTHS, LEFT THREE QUARTERS and LEFT FIVE EIGHTHS BLOCK ink what their names
  say. A code point outside the palette has no entry.
\<close>

definition fill_eighths :: "glyph \<Rightarrow> nat option" where
  "fill_eighths g =
     (if g = 0x20 then Some 0
      else if g = 0x2591 then Some 2
      else if g = 0x2592 then Some 4
      else if g = 0x2593 then Some 6
      else if g = 0x2588 then Some 8
      else if g = 0x2589 then Some 7
      else if g = 0x258A then Some 6
      else if g = 0x258B then Some 5
      else None)"

section \<open>Rendering pipeline: windowing\<close>

text \<open>
  Python exceptions that the modelled functions can meet. \<open>FloatingPointError\<close> stands
  for numpy's divide-by-zero and invalid-operation signal: a division of an array by a
  zero scalar (under numpy's default settings a warning and samples that are \<^verbatim>\<open>inf\<close> or
  \<^verbatim>\<open>nan\<close>, which are no numbers). \<open>FileNotFoundError p\<close> is raised by \<^verbatim>\<open>shutil.copy2\<close>
  on a missing source \<open>p\<close>, and \<open>WriteError p\<close> is whatever the codec's \<^verbatim>\<open>save_as\<close> raises
  when it fails to encode or write the file \<open>p\<close>.
\<close>

datatype exn = ValueError | TypeError | IndexError | AttributeError | FloatingPointError
  | FileNotFoundError string | WriteError string

text \<open>
  Samples are \<^verbatim>\<open>float32\<close> (\<^verbatim>\<open>apply_dicom_rescaling\<close> returns a \<^verbatim>\<open>float32\<close> array).
  They are modelled as real numbers, and every numpy operation on them rounds its exact
  result with a function \<open>rnd\<close>, the rounding of \<^verbatim>\<open>float32\<close>, which the model takes as
  a parameter. What the proofs need of it is collected in \<open>fp_rounding\<close>: it is monotone,
  it leaves every half-integer of magnitude up to \<open>2 ^ 23\<close> as it is (these are
  \<^verbatim>\<open>float32\<close> numbers), and the difference of two different numbers it leaves alone
  does not round to zero (gradual underflow). \<open>representable rnd x\<close> says that \<open>x\<close> is a
  number of the format.
\<close>

type_synonym rounding = "real \<Rightarrow> real"

definition representable :: "rounding \<Rightarrow> real \<Rightarrow> bool" where
  "representable rnd x \<longleftrightarrow> rnd x = x"

definition fp_rounding :: "rounding \<Rightarrow> bool" where
  "fp_rounding rnd \<longleftrightarrow>
     (\<forall>x y. x \<le> y \<longrightarrow> rnd x \<le> rnd y)
     \<and> (\<forall>k::int. \<bar>k\<bar> \<le> 2 ^ 24 \<longrightarrow> rnd (real_of_int k / 2) = real_of_int k / 2)
     \<and> (\<forall>x y. rnd x = x \<and> rnd y = y \<and> x < y \<longrightarrow> 0 < rnd (y - x))"

type_synonym grid = "real list list"

text \<open>\<^verbatim>\<open>ndarray.astype(np.uint8)\<close>: truncate towards zero, then keep the low 8 bits.\<close>

definition astype_uint8 :: "real \<Rightarrow> uint8" where
  "astype_uint8 y = word_of_int (if 0 \<le> y then \<lfloor>y\<rfloor> else \<lceil>y\<rceil>)"

text \<open>\<^verbatim>\<open>pixel_array.min()\<close> and \<^verbatim>\<open>pixel_array.max()\<close>; numpy raises on an empty array.\<close>

definition grid_min :: "grid \<Rightarrow> exn + real" where
  "grid_min g = (case concat g of [] \<Rightarrow> Inl ValueError | x # xs \<Rightarrow> Inr (fold min xs x))"

definition grid_max :: "grid \<Rightarrow> exn + real" where
  "grid_max g = (case concat g of [] \<Rightarrow> Inl ValueError | x # xs \<Rightarrow> Inr (fold max xs x))"

text \<open>Array divided by a scalar; a zero scalar is flagged when there is a sample to divide.\<close>

definition np_divide :: "rounding \<Rightarrow> grid \<Rightarrow> real \<Rightarrow> exn + grid" where
  "np_divide rnd g b =
     (if b = 0 \<and> concat g \<noteq> [] then Inl FloatingPointError
      else Inr (map (map (\<lambda>a. rnd (a / b))) g))"

definition np_zeros_like :: "'a list list \<Rightarrow> uint8 list list" where
  "np_zeros_like g = map (map (\<lambda>_. 0)) g"

text \<open>
  A window preset is the tuple \<^verbatim>\<open>(name, width, center)\<close> of \<^verbatim>\<open>self.window_presets\<close>;
  \<^verbatim>\<open>None\<close> is \<open>None\<close>.
\<close>

type_synonym preset = "string \<times> int option \<times> int option"

definition window_presets :: "preset list" where
  "window_presets =
     [(''Auto'', None, None),
      (''Soft Tissue'', Some 350, Some 40),
      (''Lung'', Some 1500, Some (- 600)),
      (''Bone'', Some 2000, Some 300),
      (''Brain'', Some 80, Some 40),
      (''Liver'', Some 150, Some 30),
      (''Mediastinum'', Some 350, Some 50)]"

text \<open>
  The auto branch of \<^verbatim>\<open>apply_windowing\<close>:
  \<^verbatim>\<open>
    pixel_min, pixel_max = pixel_array.min(), pixel_array.max()
    if pixel_max > pixel_min:
        windowed = ((pixel_array - pixel_min) / (pixel_max - pixel_min) * 255).astype(np.uint8)
    else:
        windowed = np.zeros_like(pixel_array, dtype=np.uint8)
  \<close>
\<close>

definition window_auto :: "rounding \<Rightarrow> grid \<Rightarrow> exn + uint8 list list" where
  "window_auto rnd g =
     (case grid_min g of Inl e \<Rightarrow> Inl e | Inr pixel_min \<Rightarrow>
      (case grid_max g of Inl e \<Rightarrow> Inl e | Inr pixel_max \<Rightarrow>
       if pixel_max > pixel_min then
         (case np_divide rnd (map (map (\<lambda>a. rnd (a - pixel_min))) g) (rnd (pixel_max - pixel_min)) of
            Inl e \<Rightarrow> Inl e
          | Inr q \<Rightarrow> Inr (map (map (\<lambda>a. astype_uint8 (rnd (a * 255)))) q))
       else Inr (np_zeros_like g)))"

text \<open>
  The fixed branch:
  \<^verbatim>\<open>
    lower_bound = window_center - window_width / 2.0
    upper_bound = window_center + window_width / 2.0
    windowed_float = np.clip(pixel_array, lower_bound, upper_bound)
    if upper_bound > lower_bound:
        windowed_float = (windowed_float - lower_bound) / (upper_bound - lower_bound) * 255.0
    else:
        windowed_float = np.zeros_like(windowed_float)
    windowed = windowed_float.astype(np.uint8)
  \<close>
  The two bounds are Python floats, computed exactly from the integers of the preset; they
  are rounded to \<^verbatim>\<open>float32\<close> where they meet the array.
\<close>

definition lower_bound :: "int \<Rightarrow> int \<Rightarrow> real" where
  "lower_bound window_width window_center = real_of_int window_center - real_of_int window_width / 2"

definition upper_bound :: "int \<Rightarrow> int \<Rightarrow> real" where
  "upper_bound window_width window_center = real_of_int window_center + real_of_int window_width / 2"

definition window_fixed :: "rounding \<Rightarrow> int \<Rightarrow> int \<Rightarrow> grid \<Rightarrow> exn + uint8 list list" where
  "window_fixed rnd window_width window_center g =
     (let lo = lower_bound window_width window_center;
          hi = upper_bound window_width window_center;
          clipped = map (map (np_clip (rnd lo) (rnd hi))) g
      in if hi > lo then
           (case np_divide rnd (map (map (\<lambda>a. rnd (a - rnd lo))) clipped) (rnd (hi - lo)) of
              Inl e \<Rightarrow> Inl e
            | Inr q \<Rightarrow> Inr (map (map (\<lambda>a. astype_uint8 (rnd (a * 255)))) q))
         else Inr (map (map astype_uint8) (map (map (\<lambda>_. 0)) clipped)))"

text \<open>
  \<^verbatim>\<open>apply_windowing\<close> for a given preset: auto when the name is \<^verbatim>\<open>"Auto"\<close> or the width
  is \<^verbatim>\<open>None\<close>; a fixed preset with a width and no center makes Python raise \<^verbatim>\<open>TypeError\<close>
  at the subtraction.
\<close>

definition apply_window :: "rounding \<Rightarrow> preset \<Rightarrow> grid \<Rightarrow> exn + uint8 list list" where
  "apply_window rnd p g =
     (case p of (preset_name, window_width, window_center) \<Rightarrow>
        if preset_name = ''Auto'' then window_auto rnd g
        else (case window_width of
                None \<Rightarrow> window_auto rnd g
              | Some w \<Rightarrow>
                  (case window_center of
                     None \<Rightarrow> Inl TypeError
                   | Some c \<Rightarrow> window_fixed rnd w c g)))"

text \<open>\<^verbatim>\<open>apply_windowing\<close>: the preset is \<^verbatim>\<open>self.window_presets[self.current_preset]\<close>.\<close>

definition apply_windowing :: "rounding \<Rightarrow> nat \<Rightarrow> grid \<Rightarrow> exn + uint8 list list" where
  "apply_windowing rnd current_preset g =
     (if current_preset < length window_presets
      then apply_window rnd (window_presets ! current_preset) g
      else Inl IndexError)"

text \<open>The intensity of one sample under a fixed preset with a positive width.\<close>

definition window_fixed_sample :: "rounding \<Rightarrow> int \<Rightarrow> int \<Rightarrow> real \<Rightarrow> real" where
  "window_fixed_sample rnd w c x =
     rnd (rnd (rnd (np_clip (rnd (lower_bound w c)) (rnd (upper_bound w c)) x - rnd (lower_bound w c))
               / rnd (upper_bound w c - lower_bound w c)) * 255)"

section \<open>Records, fields and the editability policy\<close>

unbundle bit_operations_syntax

text \<open>
  A field identifier is a pair of 16-bit group and element numbers. A data element has a
  tag, a value representation \<^verbatim>\<open>VR\<close> and a value; the value of a sequence element
  (\<^verbatim>\<open>VR == 'SQ'\<close>) is a list of items, each a dataset of its own. A dataset (a pydicom
  \<^verbatim>\<open>Dataset\<close>) is the list of its elements in iteration order, with one element per tag.
  A Python \<^verbatim>\<open>float\<close> is a real number, an infinity or \<^verbatim>\<open>nan\<close>.
\<close>

type_synonym tag = "16 word \<times> 16 word"

datatype pyfloat = Finite real | PosInf | NegInf | NaN

datatype element = DataElement (tag: tag) (VR: string) (val: pyval)
  and pyval = PyNone | PyStr string | PyInt int | PyFloat pyfloat | PySeq "element list list"

type_synonym dataset = "element list"

text \<open>\<^verbatim>\<open>tag in dataset\<close> and \<^verbatim>\<open>dataset[tag]\<close>.\<close>

definition ds_get :: "dataset \<Rightarrow> tag \<Rightarrow> element option" where
  "ds_get ds t = find (\<lambda>e. tag e = t) ds"

text \<open>The element with the tag of \<open>e'\<close> replaced, in place, by \<open>e'\<close>.\<close>

fun ds_put :: "dataset \<Rightarrow> element \<Rightarrow> dataset" where
  "ds_put [] e' = []"
| "ds_put (e # es) e' = (if tag e = tag e' then e' # es else e # ds_put es e')"

text \<open>
  \<^verbatim>\<open>is_editable_tag\<close>:
  \<^verbatim>\<open>
    critical_tags = {(0x0002, 0x0000), ..., (0x0008, 0x0018)}
    return element.tag not in critical_tags and element.VR in ['CS', 'LO', ...]
  \<close>
  \<^verbatim>\<open>critical_tags\<close> is a set of tuples, and \<^verbatim>\<open>element.tag\<close> is a pydicom \<^verbatim>\<open>BaseTag\<close>: an
  \<^verbatim>\<open>int\<close>, \<open>group * 65536 + element\<close>, that hashes as that \<^verbatim>\<open>int\<close> and compares equal to the
  tuple \<^verbatim>\<open>(group, element)\<close>. A set looks a key up among the members that have the key's
  hash, so the hashes decide the test: the key's, which is the tag's number, and the
  members', which are those of tuples of two small numbers (CPython from 3.8 on, 64 bit:
  one round per item, a rotation by 31 bits, the length mixed in at the end). Unlike
  \<^verbatim>\<open>is_slice_specific_tag\<close>, the method does not turn the tag into a tuple first.
\<close>

definition xxrotate :: "64 word \<Rightarrow> 64 word" where
  "xxrotate x = push_bit 31 x OR drop_bit 33 x"

definition xxlane :: "64 word \<Rightarrow> 64 word \<Rightarrow> 64 word" where
  "xxlane acc lane = xxrotate (acc + lane * 14029467366897019727) * 11400714785074694791"

definition tuplehash :: "tag \<Rightarrow> 64 word" where
  "tuplehash t =
     (let acc = xxlane (xxlane 2870177450012600261 (ucast (fst t))) (ucast (snd t));
          acc = acc + (2 XOR (2870177450012600261 XOR 3527539))
      in if acc = - 1 then 1546275796 else acc)"

definition base_tag_hash :: "tag \<Rightarrow> 64 word" where
  "base_tag_hash t = push_bit 16 (ucast (fst t)) OR ucast (snd t)"

text \<open>\<^verbatim>\<open>tag in s\<close> for a \<^verbatim>\<open>BaseTag\<close> and a set \<open>s\<close> of tuples.\<close>

definition tag_in_tuple_set :: "tag \<Rightarrow> tag list \<Rightarrow> bool" where
  "tag_in_tuple_set t s = list_ex (\<lambda>member. tuplehash member = base_tag_hash t \<and> t = member) s"

definition critical_tags :: "tag list" where
  "critical_tags =
     [(0x0002, 0x0000), (0x0002, 0x0001), (0x0002, 0x0002), (0x0002, 0x0003),
      (0x0002, 0x0010), (0x0008, 0x0016), (0x0008, 0x0018)]"

definition is_editable_tag :: "element \<Rightarrow> bool" where
  "is_editable_tag e \<longleftrightarrow>
     \<not> tag_in_tuple_set (tag e) critical_tags
     \<and> VR e \<in> set [''CS'', ''LO'', ''LT'', ''PN'', ''SH'', ''ST'', ''UT'', ''DS'', ''IS'',
                    ''AS'', ''DA'', ''DT'', ''TM'']"

text \<open>
  \<^verbatim>\<open>is_slice_specific_tag\<close>: here the tag is turned into the tuple
  \<^verbatim>\<open>(tag.group, tag.element)\<close> before the test, so the test is plain membership.
\<close>

definition slice_specific_tags :: "tag list" where
  "slice_specific_tags =
     [(0x0018, 0x5100), (0x0020, 0x0032), (0x0020, 0x0037), (0x0020, 0x1041),
      (0x0020, 0x0013), (0x0020, 0x0012), (0x0008, 0x0032), (0x0008, 0x0033),
      (0x0018, 0x0050), (0x0028, 0x1050), (0x0028, 0x1051), (0x0020, 0x1002)]"

definition is_slice_specific_tag :: "tag \<Rightarrow> bool" where
  "is_slice_specific_tag t \<longleftrightarrow> t \<in> set slice_specific_tags"

section \<open>Value coercion\<close>

text \<open>
  What the model takes from Python and from the codec, as parameters: \<^verbatim>\<open>str(value)\<close>,
  \<^verbatim>\<open>float(s)\<close> and \<^verbatim>\<open>int(s)\<close> (\<open>None\<close> when they raise \<^verbatim>\<open>ValueError\<close>), and the setter of
  \<^verbatim>\<open>DataElement.value\<close>, which gives the value that the element holds after the
  assignment, or \<open>None\<close> when the codec raises.
\<close>

record py_env =
  py_str :: "pyval \<Rightarrow> string"
  py_float :: "string \<Rightarrow> pyfloat option"
  py_int :: "string \<Rightarrow> int option"
  set_value :: "element \<Rightarrow> pyval \<Rightarrow> pyval option"

text \<open>
  \<^verbatim>\<open>str.strip()\<close>: the characters below 256 that Python counts as whitespace are removed
  from both ends.
\<close>

definition is_space :: "char \<Rightarrow> bool" where
  "is_space c \<longleftrightarrow> (of_char c :: nat) \<in> set [9, 10, 11, 12, 13, 28, 29, 30, 31, 32, 133, 160]"

definition strip :: "string \<Rightarrow> string" where
  "strip s = rev (dropWhile is_space (rev (dropWhile is_space s)))"

text \<open>
  \<^verbatim>\<open>convert_value_for_vr\<close>:
  \<^verbatim>\<open>
    if vr in ['DS']:   return float(value) if value else 0.0
    elif vr in ['IS']: return int(value) if value else 0
    elif vr in ['AS']: return value.strip()
    ... ('DA', 'DT', 'TM' and every other VR alike)
  \<close>
\<close>

definition convert_value_for_vr :: "py_env \<Rightarrow> string \<Rightarrow> string \<Rightarrow> exn + pyval" where
  "convert_value_for_vr env v vr =
     (if vr \<in> set [''DS''] then
        (if v \<noteq> [] then (case py_float env v of None \<Rightarrow> Inl ValueError | Some f \<Rightarrow> Inr (PyFloat f))
         else Inr (PyFloat (Finite 0)))
      else if vr \<in> set [''IS''] then
        (if v \<noteq> [] then (case py_int env v of None \<Rightarrow> Inl ValueError | Some i \<Rightarrow> Inr (PyInt i))
         else Inr (PyInt 0))
      else if vr \<in> set [''AS''] then Inr (PyStr (strip v))
      else if vr \<in> set [''DA''] then Inr (PyStr (strip v))
      else if vr \<in> set [''DT''] then Inr (PyStr (strip v))
      else if vr \<in> set [''TM''] then Inr (PyStr (strip v))
      else Inr (PyStr (strip v)))"

text \<open>\<^verbatim>\<open>element.value = new_value\<close>: the element afterwards, or \<open>None\<close> when the setter raises.\<close>

definition assign_value :: "py_env \<Rightarrow> element \<Rightarrow> pyval \<Rightarrow> element option" where
  "assign_value env e new_value =
     (case set_value env e new_value of
        None \<Rightarrow> None
      | Some stored \<Rightarrow> Some (DataElement (tag e) (VR e) stored))"

section \<open>Application state, tree population and edits\<close>

text \<open>
  The fields of \<^verbatim>\<open>DicomTreeApp\<close> that the modelled methods read or write. \<^verbatim>\<open>all_datasets\<close>
  is a dict from file path to dataset: the list of its items in insertion order, with
  distinct keys. Widgets, title and theme are left out.
\<close>

type_synonym path = string

record app =
  dicom_files :: "path list"
  current_index :: nat
  dataset :: "dataset option"
  has_changes :: bool
  all_datasets :: "(path \<times> dataset) list"

text \<open>The property \<^verbatim>\<open>current_file\<close>: \<^verbatim>\<open>self.dicom_files[self.current_index]\<close>.\<close>

definition current_file :: "app \<Rightarrow> exn + path" where
  "current_file a =
     (if current_index a < length (dicom_files a) then Inr (dicom_files a ! current_index a)
      else Inl IndexError)"

text \<open>
  An entry of \<^verbatim>\<open>self.tag_map\<close>: the tag, the VR and the path of an element; the entry's
  \<^verbatim>\<open>'element'\<close> is the element of \<^verbatim>\<open>self.dataset\<close> found along the path. A path step is
  the tag of a sequence element and the index of one of its items.
\<close>

record tag_info =
  info_tag :: tag
  info_vr :: string
  info_path :: "(tag \<times> nat) list"

text \<open>
  \<^verbatim>\<open>add_element_to_tree\<close>, as far as \<^verbatim>\<open>self.tag_map\<close> goes; \<open>n\<close> is
  \<^verbatim>\<open>len(self.dicom_files)\<close>. A sequence element adds the entries of the elements of its
  items, each under the path extended by the sequence's tag and the item's index; any
  other element gets an entry when
  \<^verbatim>\<open>
    element.VR not in ['SQ'] and self.is_editable_tag(element) and
    not (len(self.dicom_files) > 1 and self.is_slice_specific_tag(element.tag))
  \<close>
\<close>

fun add_element_to_tree :: "nat \<Rightarrow> (tag \<times> nat) list \<Rightarrow> element \<Rightarrow> tag_info list"
  and add_sequence_items :: "nat \<Rightarrow> (tag \<times> nat) list \<Rightarrow> tag \<Rightarrow> nat \<Rightarrow> element list list \<Rightarrow> tag_info list"
  and add_item_elements :: "nat \<Rightarrow> (tag \<times> nat) list \<Rightarrow> element list \<Rightarrow> tag_info list"
  where
  "add_element_to_tree n path (DataElement t vr v) =
     (if vr = ''SQ'' then (case v of PySeq items \<Rightarrow> add_sequence_items n path t 0 items | _ \<Rightarrow> [])
      else if vr \<notin> set [''SQ''] \<and> is_editable_tag (DataElement t vr v)
              \<and> \<not> (n > 1 \<and> is_slice_specific_tag t)
           then [\<lparr>info_tag = t, info_vr = vr, info_path = path\<rparr>]
           else [])"
| "add_sequence_items n path t i [] = []"
| "add_sequence_items n path t i (item # items) =
     add_item_elements n (path @ [(t, i)]) item @ add_sequence_items n path t (Suc i) items"
| "add_item_elements n path [] = []"
| "add_item_elements n path (e # es) =
     add_element_to_tree n path e @ add_item_elements n path es"

text \<open>\<^verbatim>\<open>populate_tree\<close>: the tag map is cleared and rebuilt from \<^verbatim>\<open>self.dataset\<close>.\<close>

definition populate_tree :: "app \<Rightarrow> tag_info list" where
  "populate_tree a =
     (case dataset a of None \<Rightarrow> []
      | Some ds \<Rightarrow> add_item_elements (length (dicom_files a)) [] ds)"

text \<open>The element that a tag map entry refers to, and its replacement.\<close>

fun get_at :: "dataset \<Rightarrow> (tag \<times> nat) list \<Rightarrow> tag \<Rightarrow> element option" where
  "get_at ds [] t = ds_get ds t"
| "get_at ds ((st, i) # rest) t =
     (case ds_get ds st of
        Some (DataElement _ _ (PySeq items)) \<Rightarrow>
          (if i < length items then get_at (items ! i) rest t else None)
      | _ \<Rightarrow> None)"

fun put_at :: "dataset \<Rightarrow> (tag \<times> nat) list \<Rightarrow> element \<Rightarrow> dataset" where
  "put_at ds [] e' = ds_put ds e'"
| "put_at ds ((st, i) # rest) e' =
     (case ds_get ds st of
        Some (DataElement t vr (PySeq items)) \<Rightarrow>
          (if i < length items
           then ds_put ds (DataElement t vr (PySeq (items[i := put_at (items ! i) rest e'])))
           else ds)
      | _ \<Rightarrow> ds)"

text \<open>
  The body of the loop of \<^verbatim>\<open>bulk_update_tag\<close>, for one dataset:
  \<^verbatim>\<open>
    try:
        if tag in dataset and self.is_editable_tag(dataset[tag]):
            dataset[tag].value = new_value
    except Exception:
        pass
  \<close>
\<close>

definition bulk_update_one :: "py_env \<Rightarrow> tag \<Rightarrow> pyval \<Rightarrow> dataset \<Rightarrow> dataset" where
  "bulk_update_one env t new_value ds =
     (case ds_get ds t of
        None \<Rightarrow> ds
      | Some e \<Rightarrow>
          (if is_editable_tag e then
             (case assign_value env e new_value of None \<Rightarrow> ds | Some e' \<Rightarrow> ds_put ds e')
           else ds))"

text \<open>
  \<^verbatim>\<open>bulk_update_tag\<close>. The method has no \<^verbatim>\<open>return\<close> statement: it returns \<^verbatim>\<open>None\<close>, or
  raises what \<^verbatim>\<open>self.current_file\<close> raises, after the loop. The result is the outcome
  for the caller and the state left behind.
\<close>

definition bulk_update_tag :: "py_env \<Rightarrow> app \<Rightarrow> tag \<Rightarrow> pyval \<Rightarrow> string \<Rightarrow> (exn + pyval) \<times> app" where
  "bulk_update_tag env a t new_value vr =
     (let a1 = a\<lparr>all_datasets := map (\<lambda>(file_path, ds). (file_path, bulk_update_one env t new_value ds))
                                   (all_datasets a)\<rparr>
      in if length (dicom_files a1) > 1 then
           (case current_file a1 of
              Inl e \<Rightarrow> (Inl e, a1)
            | Inr cf \<Rightarrow>
                (case map_of (all_datasets a1) cf of
                   Some ds \<Rightarrow> (Inr PyNone, a1\<lparr>dataset := Some ds\<rparr>)
                 | None \<Rightarrow> (Inr PyNone, a1)))
         else (Inr PyNone, a1))"

text \<open>
  \<^verbatim>\<open>handle_edit_result\<close>. \<open>new_value\<close> is the text of the dialog (\<open>None\<close> when it was
  cancelled) and \<open>selected\<close> the tag map entry of the cursor node (\<open>None\<close> when the node
  has none). Whatever is raised between \<^verbatim>\<open>try\<close> and \<^verbatim>\<open>except Exception: pass\<close> ends the
  edit there, with the state as it is at that point.
\<close>

definition handle_edit_result :: "py_env \<Rightarrow> app \<Rightarrow> string option \<Rightarrow> tag_info option \<Rightarrow> app" where
  "handle_edit_result env a new_value selected =
     (case new_value of None \<Rightarrow> a | Some nv \<Rightarrow>
      (case selected of None \<Rightarrow> a | Some ti \<Rightarrow>
       (case dataset a of None \<Rightarrow> a | Some ds \<Rightarrow>
        (case get_at ds (info_path ti) (info_tag ti) of None \<Rightarrow> a | Some el \<Rightarrow>
         (if nv \<noteq> py_str env (val el) then
            (case convert_value_for_vr env nv (info_vr ti) of
               Inl e \<Rightarrow> a
             | Inr converted_value \<Rightarrow>
                 (if length (dicom_files a) > 1 then
                    (case bulk_update_tag env a (info_tag ti) converted_value (info_vr ti) of
                       (Inl e, a1) \<Rightarrow> a1
                     | (Inr r, a1) \<Rightarrow> a1\<lparr>has_changes := True\<rparr>)
                  else
                    (case assign_value env el converted_value of
                       None \<Rightarrow> a
                     | Some el' \<Rightarrow> a\<lparr>dataset := Some (put_at ds (info_path ti) el'),
                                     has_changes := True\<rparr>)))
          else a)))))"

section \<open>Write transaction\<close>

text \<open>
  The disk is a map from paths to file contents. \<^verbatim>\<open>file_path.with_suffix(file_path.suffix
  + '.bak')\<close> puts \<^verbatim>\<open>.bak\<close> after the file name.
\<close>

type_synonym bytes = "uint8 list"

type_synonym fs = "path \<Rightarrow> bytes option"

definition backup_path_of :: "path \<Rightarrow> path" where
  "backup_path_of file_path = file_path @ ''.bak''"

text \<open>
  What the model takes from the codec and the operating system, as parameters.
  \<^verbatim>\<open>dataset.save_as(path)\<close>, given the dataset, the path and what the path holds, either
  succeeds and leaves the encoded bytes there, or raises and leaves there whatever it
  leaves (the old content, a truncated file, nothing). \<open>unlink_ok\<close> says whether
  \<^verbatim>\<open>Path.unlink\<close> of an existing file succeeds.
\<close>

datatype write_result = Written bytes | WriteRaised "bytes option"

record io_env =
  save_as :: "dataset \<Rightarrow> path \<Rightarrow> bytes option \<Rightarrow> write_result"
  unlink_ok :: "path \<Rightarrow> bool"

text \<open>\<^verbatim>\<open>shutil.copy2(src, dst)\<close>: raises when the source is missing.\<close>

definition copy2 :: "fs \<Rightarrow> path \<Rightarrow> path \<Rightarrow> exn + fs" where
  "copy2 disk src dst =
     (case disk src of None \<Rightarrow> Inl (FileNotFoundError src) | Some b \<Rightarrow> Inr (disk(dst \<mapsto> b)))"

text \<open>
  The backup step of one file:
  \<^verbatim>\<open>
    backup_path = file_path.with_suffix(file_path.suffix + '.bak')
    if not backup_path.exists():
        shutil.copy2(file_path, backup_path)
        backup_files.append(backup_path)
  \<close>
\<close>

definition backup_step :: "fs \<Rightarrow> path list \<Rightarrow> path \<Rightarrow> exn + (fs \<times> path list)" where
  "backup_step disk backup_files file_path =
     (let backup_path = backup_path_of file_path
      in if disk backup_path \<noteq> None then Inr (disk, backup_files)
         else (case copy2 disk file_path backup_path of
                 Inl e \<Rightarrow> Inl e
               | Inr disk' \<Rightarrow> Inr (disk', backup_files @ [backup_path])))"

text \<open>
  Backup, then \<^verbatim>\<open>dataset.save_as(str(file_path))\<close>. The result is the exception that
  ended the step, if any, the disk and \<^verbatim>\<open>backup_files\<close>.
\<close>

definition save_one :: "io_env \<Rightarrow> path \<Rightarrow> dataset \<Rightarrow> fs \<Rightarrow> path list \<Rightarrow> exn option \<times> fs \<times> path list" where
  "save_one io file_path ds disk backup_files =
     (case backup_step disk backup_files file_path of
        Inl e \<Rightarrow> (Some e, disk, backup_files)
      | Inr (disk1, backup_files1) \<Rightarrow>
          (case save_as io ds file_path (disk1 file_path) of
             WriteRaised left \<Rightarrow> (Some (WriteError file_path), disk1(file_path := left), backup_files1)
           | Written b \<Rightarrow> (None, disk1(file_path \<mapsto> b), backup_files1)))"

text \<open>
  The bulk branch, \<^verbatim>\<open>for file_path, dataset in self.all_datasets.items()\<close>: the first
  exception ends the loop.
\<close>

fun save_all :: "io_env \<Rightarrow> (path \<times> dataset) list \<Rightarrow> fs \<Rightarrow> path list \<Rightarrow> exn option \<times> fs \<times> path list" where
  "save_all io [] disk backup_files = (None, disk, backup_files)"
| "save_all io ((file_path, ds) # rest) disk backup_files =
     (case save_one io file_path ds disk backup_files of
        (Some e, disk', backup_files') \<Rightarrow> (Some e, disk', backup_files')
      | (None, disk', backup_files') \<Rightarrow> save_all io rest disk' backup_files')"

text \<open>
  The single-file branch, on \<^verbatim>\<open>self.current_file\<close> and \<^verbatim>\<open>self.dataset\<close>; with no dataset
  loaded, \<^verbatim>\<open>self.dataset.save_as\<close> raises \<^verbatim>\<open>AttributeError\<close>, after the backup.
\<close>

definition save_single :: "io_env \<Rightarrow> app \<Rightarrow> fs \<Rightarrow> exn option \<times> fs \<times> path list" where
  "save_single io a disk =
     (case current_file a of
        Inl e \<Rightarrow> (Some e, disk, [])
      | Inr file_path \<Rightarrow>
          (case backup_step disk [] file_path of
             Inl e \<Rightarrow> (Some e, disk, [])
           | Inr (disk1, backup_files1) \<Rightarrow>
               (case dataset a of
                  None \<Rightarrow> (Some AttributeError, disk1, backup_files1)
                | Some ds \<Rightarrow>
                    (case save_as io ds file_path (disk1 file_path) of
                       WriteRaised left \<Rightarrow>
                         (Some (WriteError file_path), disk1(file_path := left), backup_files1)
                     | Written b \<Rightarrow> (None, disk1(file_path \<mapsto> b), backup_files1)))))"

text \<open>
  \<^verbatim>\<open>cleanup_backup_files\<close>:
  \<^verbatim>\<open>
    for backup_path in backup_files:
        try:
            if backup_path.exists():
                backup_path.unlink()
        except Exception:
            pass
  \<close>
\<close>

fun cleanup_backup_files :: "io_env \<Rightarrow> fs \<Rightarrow> path list \<Rightarrow> fs" where
  "cleanup_backup_files io disk [] = disk"
| "cleanup_backup_files io disk (backup_path # rest) =
     cleanup_backup_files io
       (if disk backup_path \<noteq> None \<and> unlink_ok io backup_path then disk(backup_path := None)
        else disk)
       rest"

text \<open>
  The part of \<^verbatim>\<open>action_save_file\<close> between \<^verbatim>\<open>try:\<close> and the clean-up: the backups and
  writes of the batch, with the exception that ended them, if any.
\<close>

definition save_attempt :: "io_env \<Rightarrow> app \<Rightarrow> fs \<Rightarrow> exn option \<times> fs \<times> path list" where
  "save_attempt io a disk =
     (if length (dicom_files a) > 1 then save_all io (all_datasets a) disk []
      else save_single io a disk)"

text \<open>The files that \<^verbatim>\<open>action_save_file\<close> is to write.\<close>

definition save_targets :: "app \<Rightarrow> path list" where
  "save_targets a =
     (if length (dicom_files a) > 1 then map fst (all_datasets a)
      else (case current_file a of Inl e \<Rightarrow> [] | Inr file_path \<Rightarrow> [file_path]))"

text \<open>
  \<^verbatim>\<open>action_save_file\<close>. Everything after \<^verbatim>\<open>if self.has_changes:\<close> stands inside
  \<^verbatim>\<open>try: ... except Exception as e: pass\<close>, and the method has no \<^verbatim>\<open>return\<close>: it returns
  \<^verbatim>\<open>None\<close> to its caller whatever happened. After a batch without exception the backups
  made by this call are cleaned up and \<^verbatim>\<open>has_changes\<close> is cleared; after an exception the
  state and the disk stay as the exception left them. The result is the outcome for the
  caller, the state and the disk.
\<close>

definition action_save_file :: "io_env \<Rightarrow> app \<Rightarrow> fs \<Rightarrow> (exn + pyval) \<times> app \<times> fs" where
  "action_save_file io a disk =
     (if has_changes a then
        (case save_attempt io a disk of
           (Some e, disk', backup_files) \<Rightarrow> (Inr PyNone, a, disk')
         | (None, disk', backup_files) \<Rightarrow>
             (Inr PyNone, a\<lparr>has_changes := False\<rparr>, cleanup_backup_files io disk' backup_files))
      else (Inr PyNone, a, disk))"

section \<open>Example working sets\<close>

text \<open>
  A Python side that prints a string value as it is, parses a few decimal and integer
  strings, and whose setter stores the value as given.
\<close>

definition example_env :: py_env where
  "example_env =
     \<lparr>py_str = (\<lambda>v. case v of PyStr s \<Rightarrow> s | _ \<Rightarrow> []),
      py_float = (\<lambda>s. if s = ''1.5'' then Some (Finite (3 / 2)) else None),
      py_int = (\<lambda>s. if s = ''7'' then Some 7 else None),
      set_value = (\<lambda>e v. Some v)\<rparr>"

text \<open>
  Three files of one series. Each has a modality (0008,0060) and an instance number
  (0020,0013); the first and the third have a patient name (0010,0010), the second has
  none.
\<close>

definition example_record :: "string option \<Rightarrow> int \<Rightarrow> dataset" where
  "example_record patient_name instance_number =
     [DataElement (0x0008, 0x0060) ''CS'' (PyStr ''CT'')]
     @ (case patient_name of
          None \<Rightarrow> []
        | Some s \<Rightarrow> [DataElement (0x0010, 0x0010) ''PN'' (PyStr s)])
     @ [DataElement (0x0020, 0x0013) ''IS'' (PyInt instance_number)]"

definition example_app3 :: app where
  "example_app3 =
     \<lparr>dicom_files = [''a.dcm'', ''b.dcm'', ''c.dcm''],
      current_index = 0,
      dataset = Some (example_record (Some ''ROE'') 1),
      has_changes = False,
      all_datasets =
        [(''a.dcm'', example_record (Some ''ROE'') 1),
         (''b.dcm'', example_record None 2),
         (''c.dcm'', example_record (Some ''ROE'') 3)]\<rparr>"

text \<open>One file, opened alone: \<^verbatim>\<open>all_datasets\<close> stays empty.\<close>

definition example_app1 :: app where
  "example_app1 =
     \<lparr>dicom_files = [''a.dcm''],
      current_index = 0,
      dataset = Some (example_record (Some ''ROE'') 1),
      has_changes = False,
      all_datasets = []\<rparr>"

text \<open>
  A directory in which an earlier failed save left \<^verbatim>\<open>a.dcm.bak\<close>: the backup is a copy of a
  valid file, so \<^verbatim>\<open>find_dicom_files\<close> takes it for a file of the series and it is loaded
  like \<^verbatim>\<open>a.dcm\<close>. The operator has made an edit.
\<close>

definition example_app_leftover :: app where
  "example_app_leftover =
     \<lparr>dicom_files = [''a.dcm'', ''a.dcm.bak''],
      current_index = 0,
      dataset = Some (example_record (Some ''DOE'') 1),
      has_changes = True,
      all_datasets =
        [(''a.dcm'', example_record (Some ''DOE'') 1),
         (''a.dcm.bak'', example_record (Some ''DOE'') 1)]\<rparr>"

text \<open>
  Disks and codecs for the write transaction. \<open>example_disk\<close> holds the three files;
  \<open>example_disk_bak\<close> holds, besides, a backup of \<^verbatim>\<open>a.dcm\<close> left by an earlier failed save.
  \<open>example_io_ok\<close> writes every file; \<open>example_io_fail\<close> fails on \<^verbatim>\<open>b.dcm\<close>, and
  \<open>example_io_fail_all\<close> on every file, leaving the file as it was. Deleting a file
  succeeds in all of them.
\<close>

definition example_disk :: fs where
  "example_disk = [''a.dcm'' \<mapsto> [1], ''b.dcm'' \<mapsto> [2], ''c.dcm'' \<mapsto> [3]]"

definition example_disk_bak :: fs where
  "example_disk_bak = example_disk(''a.dcm.bak'' \<mapsto> [9])"

definition example_io_ok :: io_env where
  "example_io_ok = \<lparr>save_as = (\<lambda>ds file_path old. Written [7]), unlink_ok = (\<lambda>p. True)\<rparr>"

definition example_io_fail :: io_env where
  "example_io_fail =
     \<lparr>save_as = (\<lambda>ds file_path old. if file_path = ''b.dcm'' then WriteRaised old else Written [7]),
      unlink_ok = (\<lambda>p. True)\<rparr>"

definition example_io_fail_all :: io_env where
  "example_io_fail_all = \<lparr>save_as = (\<lambda>ds file_path old. WriteRaised old), unlink_ok = (\<lambda>p. True)\<rparr>"

section \<open>Quantisation: facts\<close>

lemma unat_div_32: "unat ((v::uint8) div 32) = unat v div 32"
  by (simp add: unat_div)

lemma unat_div_32_le: "unat ((v::uint8) div 32) \<le> 7"
proof -
  have "unat v < 256"
    using unsigned_less [of v] by simp
  then show ?thesis
    by (simp add: unat_div_32)
qed

lemma block_index_unat: "unat (block_index v) = min 7 (unat v div 32)"
proof -
  have le: "v div 32 \<le> 7"
    using unat_div_32_le [of v] by (simp add: word_le_nat_alt)
  have "block_index v = v div 32"
    using le by (simp add: block_index_def np_clip_def max_def min_def)
  then show ?thesis
    using unat_div_32_le [of v] by (simp add: unat_div_32)
qed

lemma block_index_le: "unat (block_index v) \<le> 7"
  by (simp add: block_index_unat)

text \<open>
  C8. The quantise step sends every intensity 0..255 to one of the 8 levels 0..7, the
  level is the integer quotient by 32 capped at 7, and the map is monotonic: a larger
  intensity never gets a smaller level.
\<close>

theorem block_index_monotonic:
  "unat (block_index v) = min 7 (unat v div 32)
   \<and> unat (block_index v) < 8
   \<and> (v1 < v2 \<longrightarrow> block_index v1 \<le> block_index v2)"
proof -
  have mono: "block_index v1 \<le> block_index v2" if "v1 < v2"
  proof -
    have "unat v1 \<le> unat v2"
      using that by (simp add: word_less_nat_alt)
    then have "unat v1 div 32 \<le> unat v2 div 32"
      by (rule div_le_mono)
    then show ?thesis
      by (simp add: word_le_nat_alt block_index_unat min_le_iff_disj)
  qed
  have "unat (block_index v) < 8"
    using block_index_le [of v] by simp
  then show ?thesis
    using mono by (simp add: block_index_unat)
qed

theorem block_index_monotonic_witness:
  "(100::uint8) < 200 \<and> block_index 100 = 3 \<and> block_index 200 = 6
   \<and> block_index (100::uint8) \<le> block_index 200"
  using block_index_monotonic [of 100 100 200]
  by (simp add: block_index_def np_clip_def)

text \<open>
  C5. The palette is meant as a gradation from the empty glyph to the fullest one, but
  it is not ordered by fill: level 4 is FULL BLOCK (8 eighths) while the levels 5, 6 and 7
  are the seven-eighths, three-quarters and five-eighths blocks, so the fill falls from
  level 4 to level 7. Intensity 130 is drawn with a fuller glyph than intensity 250.
\<close>

theorem blocks_fill_not_ordered:
  "map fill_eighths blocks = [Some 0, Some 2, Some 4, Some 6, Some 8, Some 7, Some 6, Some 5]
   \<and> fill_eighths (blocks ! 4) = Some 8 \<and> fill_eighths (blocks ! 7) = Some 5
   \<and> fill_eighths (block_glyph 130) = Some 8 \<and> fill_eighths (block_glyph 250) = Some 5"
  by (simp add: blocks_def fill_eighths_def block_glyph_def block_index_def np_clip_def)

section \<open>Windowing: facts\<close>


lemma fp_rounding_mono: "fp_rounding rnd \<Longrightarrow> x \<le> y \<Longrightarrow> rnd x \<le> rnd y"
  by (simp add: fp_rounding_def)

lemma fp_rounding_half: "fp_rounding rnd \<Longrightarrow> \<bar>k\<bar> \<le> 2 ^ 24 \<Longrightarrow> rnd (real_of_int k / 2) = real_of_int k / 2"
  by (simp add: fp_rounding_def)

lemma fp_rounding_int:
  assumes "fp_rounding rnd" "\<bar>k\<bar> \<le> 2 ^ 23"
  shows "rnd (real_of_int k) = real_of_int k"
proof -
  have "\<bar>2 * k\<bar> \<le> 2 ^ 24" using assms(2) by simp
  from fp_rounding_half [OF assms(1) this] show ?thesis by simp
qed

lemma fp_rounding_id: "fp_rounding (\<lambda>x. x)"
  by (simp add: fp_rounding_def)

lemma fp_rounding_0: "fp_rounding rnd \<Longrightarrow> rnd 0 = 0"
  using fp_rounding_int [of rnd 0] by simp

lemma fp_rounding_1: "fp_rounding rnd \<Longrightarrow> rnd 1 = 1"
  using fp_rounding_int [of rnd 1] by simp

lemma fp_rounding_255: "fp_rounding rnd \<Longrightarrow> rnd 255 = 255"
  using fp_rounding_int [of rnd 255] by simp

lemma bounds_representable:
  assumes r: "fp_rounding rnd" and w: "\<bar>w\<bar> \<le> 2 ^ 22" and c: "\<bar>c\<bar> \<le> 2 ^ 22"
  shows "rnd (lower_bound w c) = lower_bound w c"
    and "rnd (upper_bound w c) = upper_bound w c"
    and "rnd (upper_bound w c - lower_bound w c) = real_of_int w"
proof -
  have lo: "lower_bound w c = real_of_int (2 * c - w) / 2"
    by (simp add: lower_bound_def field_simps)
  have hi: "upper_bound w c = real_of_int (2 * c + w) / 2"
    by (simp add: upper_bound_def field_simps)
  have "\<bar>2 * c - w\<bar> \<le> 2 ^ 24" using w c by simp
  from fp_rounding_half [OF r this] show "rnd (lower_bound w c) = lower_bound w c"
    by (simp only: lo)
  have "\<bar>2 * c + w\<bar> \<le> 2 ^ 24" using w c by simp
  from fp_rounding_half [OF r this] show "rnd (upper_bound w c) = upper_bound w c"
    by (simp only: hi)
  have d: "upper_bound w c - lower_bound w c = real_of_int w"
    by (simp add: upper_bound_def lower_bound_def)
  have "\<bar>w\<bar> \<le> 2 ^ 23" using w by simp
  from fp_rounding_int [OF r this] show "rnd (upper_bound w c - lower_bound w c) = real_of_int w"
    by (simp only: d)
qed

lemma window_fixed_sample_eq:
  assumes r: "fp_rounding rnd" and w: "\<bar>w\<bar> \<le> 2 ^ 22" and c: "\<bar>c\<bar> \<le> 2 ^ 22"
  shows "window_fixed_sample rnd w c x =
     rnd (rnd (rnd (np_clip (lower_bound w c) (upper_bound w c) x - lower_bound w c) / real_of_int w) * 255)"
  by (simp add: window_fixed_sample_def bounds_representable [OF r w c])

lemma window_fixed_map:
  assumes r: "fp_rounding rnd" and w0: "0 < w" and w: "w \<le> 2 ^ 22" and c: "\<bar>c\<bar> \<le> 2 ^ 22"
  shows "window_fixed rnd w c g = Inr (map (map (\<lambda>x. astype_uint8 (window_fixed_sample rnd w c x))) g)"
proof -
  have aw: "\<bar>w\<bar> \<le> 2 ^ 22" using w0 w by simp
  have lt: "lower_bound w c < upper_bound w c"
    using w0 by (simp add: lower_bound_def upper_bound_def)
  have nz: "rnd (upper_bound w c - lower_bound w c) \<noteq> 0"
    using bounds_representable(3) [OF r aw c] w0 by simp
  show ?thesis
    using lt nz
    by (simp add: window_fixed_def Let_def np_divide_def window_fixed_sample_def comp_def)
qed


lemma astype_uint8_unat:
  assumes "0 \<le> y" "y < 256"
  shows "unat (astype_uint8 y) = nat \<lfloor>y\<rfloor>"
proof -
  have f0: "0 \<le> \<lfloor>y\<rfloor>" using assms(1) by simp
  have f1: "\<lfloor>y\<rfloor> < 256" using assms(2) by (simp add: floor_less_iff)
  have "uint (word_of_int \<lfloor>y\<rfloor> :: uint8) = \<lfloor>y\<rfloor>"
    using f0 f1 by (simp add: uint_word_of_int)
  then show ?thesis
    using assms(1) by (simp add: astype_uint8_def unat_eq_nat_uint)
qed

lemma astype_uint8_mono:
  assumes "0 \<le> y" "y \<le> y'" "y' < 256"
  shows "astype_uint8 y \<le> astype_uint8 y'"
proof -
  have "nat \<lfloor>y\<rfloor> \<le> nat \<lfloor>y'\<rfloor>"
    using assms(2) by (simp add: floor_mono nat_mono)
  then show ?thesis
    using assms by (simp add: word_le_nat_alt astype_uint8_unat)
qed

lemma np_clip_range: "lo \<le> hi \<Longrightarrow> lo \<le> np_clip lo hi x \<and> np_clip lo hi x \<le> hi"
  by (simp add: np_clip_def)

lemma np_clip_mono: "x \<le> y \<Longrightarrow> np_clip lo hi x \<le> np_clip lo hi y"
  by (auto simp add: np_clip_def min_def max_def)

lemma np_clip_low: "lo \<le> hi \<Longrightarrow> x \<le> lo \<Longrightarrow> np_clip lo hi x = lo"
  by (simp add: np_clip_def max_def min_def)

lemma np_clip_high: "lo \<le> hi \<Longrightarrow> hi \<le> x \<Longrightarrow> np_clip lo hi x = hi"
  by (auto simp add: np_clip_def max_def min_def)

lemma window_fixed_sample_range:
  assumes r: "fp_rounding rnd" and w0: "0 < w" and w: "w \<le> 2 ^ 22" and c: "\<bar>c\<bar> \<le> 2 ^ 22"
  shows "0 \<le> window_fixed_sample rnd w c x \<and> window_fixed_sample rnd w c x \<le> 255"
proof -
  have aw: "\<bar>w\<bar> \<le> 2 ^ 22" using w0 w by simp
  let ?lo = "lower_bound w c" and ?hi = "upper_bound w c"
  let ?cl = "np_clip ?lo ?hi x"
  have le: "?lo \<le> ?hi" using w0 by (simp add: lower_bound_def upper_bound_def)
  have d: "?hi - ?lo = real_of_int w" by (simp add: lower_bound_def upper_bound_def)
  have rw: "rnd (real_of_int w) = real_of_int w"
    using bounds_representable(3) [OF r aw c] d by simp
  have c0: "0 \<le> ?cl - ?lo" and c1: "?cl - ?lo \<le> real_of_int w"
    using np_clip_range [OF le, of x] d by linarith+
  have a0: "0 \<le> rnd (?cl - ?lo)"
    using fp_rounding_mono [OF r c0] fp_rounding_0 [OF r] by simp
  have a1: "rnd (?cl - ?lo) \<le> real_of_int w"
    using fp_rounding_mono [OF r c1] rw by simp
  have q0: "0 \<le> rnd (?cl - ?lo) / real_of_int w"
    using a0 w0 by simp
  have q1: "rnd (?cl - ?lo) / real_of_int w \<le> 1"
    using a1 w0 by simp
  have b0: "0 \<le> rnd (rnd (?cl - ?lo) / real_of_int w)"
    using fp_rounding_mono [OF r q0] fp_rounding_0 [OF r] by simp
  have b1: "rnd (rnd (?cl - ?lo) / real_of_int w) \<le> 1"
    using fp_rounding_mono [OF r q1] fp_rounding_1 [OF r] by simp
  have m0: "0 \<le> rnd (rnd (?cl - ?lo) / real_of_int w) * 255"
    using b0 by simp
  have m1: "rnd (rnd (?cl - ?lo) / real_of_int w) * 255 \<le> 255"
    using b1 by simp
  have "0 \<le> rnd (rnd (rnd (?cl - ?lo) / real_of_int w) * 255)"
    using fp_rounding_mono [OF r m0] fp_rounding_0 [OF r] by simp
  moreover have "rnd (rnd (rnd (?cl - ?lo) / real_of_int w) * 255) \<le> 255"
    using fp_rounding_mono [OF r m1] fp_rounding_255 [OF r] by simp
  ultimately show ?thesis
    by (simp add: window_fixed_sample_eq [OF r aw c])
qed

lemma window_fixed_sample_mono:
  assumes r: "fp_rounding rnd" and w0: "0 < w" and w: "w \<le> 2 ^ 22" and c: "\<bar>c\<bar> \<le> 2 ^ 22"
    and xy: "x \<le> y"
  shows "window_fixed_sample rnd w c x \<le> window_fixed_sample rnd w c y"
proof -
  have aw: "\<bar>w\<bar> \<le> 2 ^ 22" using w0 w by simp
  let ?lo = "lower_bound w c" and ?hi = "upper_bound w c"
  have "np_clip ?lo ?hi x - ?lo \<le> np_clip ?lo ?hi y - ?lo"
    using np_clip_mono [OF xy, of ?lo ?hi] by simp
  then have "rnd (np_clip ?lo ?hi x - ?lo) \<le> rnd (np_clip ?lo ?hi y - ?lo)"
    by (rule fp_rounding_mono [OF r])
  then have "rnd (np_clip ?lo ?hi x - ?lo) / real_of_int w \<le> rnd (np_clip ?lo ?hi y - ?lo) / real_of_int w"
    using w0 by (simp add: divide_right_mono)
  then have "rnd (rnd (np_clip ?lo ?hi x - ?lo) / real_of_int w)
      \<le> rnd (rnd (np_clip ?lo ?hi y - ?lo) / real_of_int w)"
    by (rule fp_rounding_mono [OF r])
  then have "rnd (rnd (np_clip ?lo ?hi x - ?lo) / real_of_int w) * 255
      \<le> rnd (rnd (np_clip ?lo ?hi y - ?lo) / real_of_int w) * 255"
    by simp
  then have "rnd (rnd (rnd (np_clip ?lo ?hi x - ?lo) / real_of_int w) * 255)
      \<le> rnd (rnd (rnd (np_clip ?lo ?hi y - ?lo) / real_of_int w) * 255)"
    by (rule fp_rounding_mono [OF r])
  then show ?thesis
    by (simp add: window_fixed_sample_eq [OF r aw c])
qed

lemma window_fixed_sample_low:
  assumes r: "fp_rounding rnd" and w0: "0 < w" and w: "w \<le> 2 ^ 22" and c: "\<bar>c\<bar> \<le> 2 ^ 22"
    and x: "x \<le> lower_bound w c"
  shows "window_fixed_sample rnd w c x = 0"
proof -
  have aw: "\<bar>w\<bar> \<le> 2 ^ 22" using w0 w by simp
  have le: "lower_bound w c \<le> upper_bound w c" using w0 by (simp add: lower_bound_def upper_bound_def)
  show ?thesis
    by (simp add: window_fixed_sample_eq [OF r aw c] np_clip_low [OF le x] fp_rounding_0 [OF r])
qed

lemma window_fixed_sample_high:
  assumes r: "fp_rounding rnd" and w0: "0 < w" and w: "w \<le> 2 ^ 22" and c: "\<bar>c\<bar> \<le> 2 ^ 22"
    and x: "upper_bound w c \<le> x"
  shows "window_fixed_sample rnd w c x = 255"
proof -
  have aw: "\<bar>w\<bar> \<le> 2 ^ 22" using w0 w by simp
  have le: "lower_bound w c \<le> upper_bound w c" using w0 by (simp add: lower_bound_def upper_bound_def)
  have d: "upper_bound w c - lower_bound w c = real_of_int w" by (simp add: lower_bound_def upper_bound_def)
  have rw: "rnd (real_of_int w) = real_of_int w"
    using bounds_representable(3) [OF r aw c] d by simp
  show ?thesis
    using w0
    by (simp add: window_fixed_sample_eq [OF r aw c] np_clip_high [OF le x] d rw
        fp_rounding_1 [OF r] fp_rounding_255 [OF r])
qed

lemma window_fixed_sample_soft_tissue_mid:
  assumes r: "fp_rounding rnd"
  shows "window_fixed_sample rnd 350 40 40 = 255 / 2"
proof -
  have e1: "rnd 175 = 175" using fp_rounding_int [OF r, of 175] by simp
  have e2: "rnd (1 / 2) = 1 / 2" using fp_rounding_half [OF r, of 1] by simp
  have e3: "rnd (255 / 2) = 255 / 2" using fp_rounding_half [OF r, of 255] by simp
  have cl: "np_clip (lower_bound 350 40) (upper_bound 350 40) 40 = 40"
    by (simp add: np_clip_def lower_bound_def upper_bound_def)
  have lo: "lower_bound 350 40 = - 135" by (simp add: lower_bound_def)
  have "window_fixed_sample rnd 350 40 40 = rnd (rnd (rnd (40 - lower_bound 350 40) / 350) * 255)"
    using window_fixed_sample_eq [OF r, of 350 40 40] by (simp add: cl)
  then show ?thesis
    by (simp add: lo e1 e2 e3)
qed

lemma astype_uint8_vals: "astype_uint8 0 = 0" "astype_uint8 255 = 255" "astype_uint8 (255 / 2) = 127"
  by (simp_all add: astype_uint8_def)


lemma fold_min_in: "fold min xs (x::real) \<in> set (x # xs)"
proof (induction xs arbitrary: x)
  case Nil
  then show ?case by simp
next
  case (Cons a xs)
  have "fold min xs (min a x) = min a x \<or> fold min xs (min a x) \<in> set xs"
    using Cons.IH [of "min a x"] by simp
  moreover have "min a x = a \<or> min a x = x"
    by (simp add: min_def)
  ultimately show ?case by auto
qed

lemma fold_max_in: "fold max xs (x::real) \<in> set (x # xs)"
proof (induction xs arbitrary: x)
  case Nil
  then show ?case by simp
next
  case (Cons a xs)
  have "fold max xs (max a x) = max a x \<or> fold max xs (max a x) \<in> set xs"
    using Cons.IH [of "max a x"] by simp
  moreover have "max a x = a \<or> max a x = x"
    by (simp add: max_def)
  ultimately show ?case by auto
qed

lemma grid_min_in:
  assumes "grid_min g = Inr m"
  shows "m \<in> set (concat g)"
proof (cases "concat g")
  case Nil
  have "grid_min g = Inl ValueError"
    unfolding grid_min_def Nil by simp
  then show ?thesis using assms by simp
next
  case (Cons x xs)
  have "grid_min g = Inr (fold min xs x)"
    unfolding grid_min_def Cons by simp
  then have "m = fold min xs x" using assms by simp
  then show ?thesis using fold_min_in [of xs x] Cons by simp
qed

lemma grid_max_in:
  assumes "grid_max g = Inr m"
  shows "m \<in> set (concat g)"
proof (cases "concat g")
  case Nil
  have "grid_max g = Inl ValueError"
    unfolding grid_max_def Nil by simp
  then show ?thesis using assms by simp
next
  case (Cons x xs)
  have "grid_max g = Inr (fold max xs x)"
    unfolding grid_max_def Cons by simp
  then have "m = fold max xs x" using assms by simp
  then show ?thesis using fold_max_in [of xs x] Cons by simp
qed

lemma grid_min_const:
  assumes "\<forall>x \<in> set (concat g). x = v" "concat g \<noteq> []"
  shows "grid_min g = Inr v"
proof -
  obtain x xs where c: "concat g = x # xs"
    using assms(2) by (cases "concat g") auto
  have "fold min xs x \<in> set (concat g)"
    using fold_min_in [of xs x] c by simp
  then have "fold min xs x = v" using assms(1) by blast
  then show ?thesis by (simp add: grid_min_def c)
qed

lemma grid_max_const:
  assumes "\<forall>x \<in> set (concat g). x = v" "concat g \<noteq> []"
  shows "grid_max g = Inr v"
proof -
  obtain x xs where c: "concat g = x # xs"
    using assms(2) by (cases "concat g") auto
  have "fold max xs x \<in> set (concat g)"
    using fold_max_in [of xs x] c by simp
  then have "fold max xs x = v" using assms(1) by blast
  then show ?thesis by (simp add: grid_max_def c)
qed

lemma window_auto_flat:
  "grid_min g = Inr m \<Longrightarrow> grid_max g = Inr m \<Longrightarrow> window_auto rnd g = Inr (np_zeros_like g)"
  by (simp add: window_auto_def)

lemma window_auto_no_fpe:
  assumes r: "fp_rounding rnd" and g: "\<forall>x \<in> set (concat g). representable rnd x"
  shows "window_auto rnd g \<noteq> Inl FloatingPointError"
proof (cases "grid_min g")
  case (Inl e)
  then have "e = ValueError" by (auto simp add: grid_min_def split: list.splits)
  then show ?thesis using Inl by (simp add: window_auto_def)
next
  case (Inr lo)
  note lo = this
  show ?thesis
  proof (cases "grid_max g")
    case (Inl e)
    then have "e = ValueError" by (auto simp add: grid_max_def split: list.splits)
    then show ?thesis using Inl lo by (simp add: window_auto_def)
  next
    case (Inr hi)
    show ?thesis
    proof (cases "hi > lo")
      case True
      have "rnd lo = lo" "rnd hi = hi"
        using g grid_min_in [OF lo] grid_max_in [OF Inr] by (auto simp add: representable_def)
      then have "0 < rnd (hi - lo)"
        using r True by (simp add: fp_rounding_def)
      then show ?thesis
        using lo Inr True by (simp add: window_auto_def np_divide_def)
    next
      case False
      then show ?thesis using lo Inr by (simp add: window_auto_def)
    qed
  qed
qed

lemma window_fixed_no_fpe:
  assumes r: "fp_rounding rnd"
  shows "window_fixed rnd w c g \<noteq> Inl FloatingPointError"
proof (cases "upper_bound w c > lower_bound w c")
  case True
  have d: "upper_bound w c - lower_bound w c = real_of_int w"
    by (simp add: lower_bound_def upper_bound_def)
  have "0 < w" using True by (simp add: lower_bound_def upper_bound_def)
  then have "(1::real) \<le> real_of_int w" by simp
  then have "rnd 1 \<le> rnd (real_of_int w)" by (rule fp_rounding_mono [OF r])
  then have "0 < rnd (upper_bound w c - lower_bound w c)"
    using fp_rounding_1 [OF r] d by simp
  then show ?thesis
    using True by (simp add: window_fixed_def Let_def np_divide_def)
next
  case False
  then show ?thesis by (simp add: window_fixed_def Let_def)
qed

lemma window_fixed_degenerate:
  assumes "upper_bound w c \<le> lower_bound w c"
  shows "window_fixed rnd w c g = Inr (np_zeros_like g)"
  using assms
  by (simp add: window_fixed_def Let_def np_zeros_like_def astype_uint8_def comp_def)

lemma apply_window_no_fpe:
  assumes r: "fp_rounding rnd" and g: "\<forall>x \<in> set (concat g). representable rnd x"
  shows "apply_window rnd p g \<noteq> Inl FloatingPointError"
  using window_auto_no_fpe [OF r g] window_fixed_no_fpe [OF r]
  by (simp add: apply_window_def split: prod.splits option.splits)


text \<open>
  C6. Under a fixed preset with width \<open>w > 0\<close> and center \<open>c\<close> (so \<open>upper > lower\<close>),
  \<^verbatim>\<open>apply_windowing\<close> sends the grid, sample by sample, to \<open>astype_uint8\<close> of
  \<open>window_fixed_sample\<close>: the sample is clipped to \<open>[lower, upper]\<close>, the result lies in
  \<open>[0, 255]\<close>, a sample at or below \<open>lower\<close> gives 0, one at or above \<open>upper\<close> gives 255,
  the intensity never falls when the sample grows, and in exact arithmetic it is the linear
  map \<open>(clipped - lower) / (upper - lower) * 255\<close>. For \<open>w = 350\<close>, \<open>c = 40\<close> the bounds are
  \<open>-135\<close> and \<open>215\<close>, and the sample 40 gives 127. The same holds of \<^verbatim>\<open>apply_windowing\<close>
  whenever the current entry of \<^verbatim>\<open>self.window_presets\<close> is such a preset.
\<close>

theorem apply_window_fixed_preset:
  assumes r: "fp_rounding rnd" and n: "preset_name \<noteq> ''Auto''"
    and w0: "0 < w" and w: "w \<le> 2 ^ 22" and c: "\<bar>c\<bar> \<le> 2 ^ 22"
  shows "apply_window rnd (preset_name, Some w, Some c) g
           = Inr (map (map (\<lambda>x. astype_uint8 (window_fixed_sample rnd w c x))) g)
     \<and> (\<forall>x. lower_bound w c \<le> np_clip (lower_bound w c) (upper_bound w c) x
            \<and> np_clip (lower_bound w c) (upper_bound w c) x \<le> upper_bound w c
            \<and> 0 \<le> window_fixed_sample rnd w c x \<and> window_fixed_sample rnd w c x \<le> 255
            \<and> (x \<le> lower_bound w c \<longrightarrow> astype_uint8 (window_fixed_sample rnd w c x) = 0)
            \<and> (upper_bound w c \<le> x \<longrightarrow> astype_uint8 (window_fixed_sample rnd w c x) = 255)
            \<and> (\<forall>y. x \<le> y \<longrightarrow>
                  astype_uint8 (window_fixed_sample rnd w c x) \<le> astype_uint8 (window_fixed_sample rnd w c y)))
     \<and> (\<forall>x. window_fixed_sample (\<lambda>a. a) w c x
            = (np_clip (lower_bound w c) (upper_bound w c) x - lower_bound w c)
                / (upper_bound w c - lower_bound w c) * 255)
     \<and> (w = 350 \<and> c = 40 \<longrightarrow>
          lower_bound w c = - 135 \<and> upper_bound w c = 215
          \<and> astype_uint8 (window_fixed_sample rnd w c 40) = 127)
     \<and> (current_preset < length window_presets
          \<and> window_presets ! current_preset = (preset_name, Some w, Some c) \<longrightarrow>
          apply_windowing rnd current_preset g
            = Inr (map (map (\<lambda>x. astype_uint8 (window_fixed_sample rnd w c x))) g))"
proof -
  have le: "lower_bound w c \<le> upper_bound w c"
    using w0 by (simp add: lower_bound_def upper_bound_def)
  have A: "apply_window rnd (preset_name, Some w, Some c) g
           = Inr (map (map (\<lambda>x. astype_uint8 (window_fixed_sample rnd w c x))) g)"
    using n window_fixed_map [OF r w0 w c] by (simp add: apply_window_def)
  have B: "lower_bound w c \<le> np_clip (lower_bound w c) (upper_bound w c) x
            \<and> np_clip (lower_bound w c) (upper_bound w c) x \<le> upper_bound w c
            \<and> 0 \<le> window_fixed_sample rnd w c x \<and> window_fixed_sample rnd w c x \<le> 255
            \<and> (x \<le> lower_bound w c \<longrightarrow> astype_uint8 (window_fixed_sample rnd w c x) = 0)
            \<and> (upper_bound w c \<le> x \<longrightarrow> astype_uint8 (window_fixed_sample rnd w c x) = 255)
            \<and> (\<forall>y. x \<le> y \<longrightarrow>
                  astype_uint8 (window_fixed_sample rnd w c x) \<le> astype_uint8 (window_fixed_sample rnd w c y))" for x
  proof -
    have mono: "astype_uint8 (window_fixed_sample rnd w c x) \<le> astype_uint8 (window_fixed_sample rnd w c y)"
      if "x \<le> y" for y
    proof (rule astype_uint8_mono)
      show "0 \<le> window_fixed_sample rnd w c x"
        using window_fixed_sample_range [OF r w0 w c] by simp
      show "window_fixed_sample rnd w c x \<le> window_fixed_sample rnd w c y"
        using that by (rule window_fixed_sample_mono [OF r w0 w c])
      have "window_fixed_sample rnd w c y \<le> 255"
        using window_fixed_sample_range [OF r w0 w c] by simp
      then show "window_fixed_sample rnd w c y < 256" by simp
    qed
    show ?thesis
      using np_clip_range [OF le, of x] window_fixed_sample_range [OF r w0 w c, of x] mono
      by (simp add: window_fixed_sample_low [OF r w0 w c] window_fixed_sample_high [OF r w0 w c]
          astype_uint8_vals)
  qed
  have C: "window_fixed_sample (\<lambda>a. a) w c x
            = (np_clip (lower_bound w c) (upper_bound w c) x - lower_bound w c)
                / (upper_bound w c - lower_bound w c) * 255" for x
    by (simp add: window_fixed_sample_def)
  have D: "lower_bound w c = - 135 \<and> upper_bound w c = 215
          \<and> astype_uint8 (window_fixed_sample rnd w c 40) = 127" if "w = 350 \<and> c = 40"
  proof -
    have "astype_uint8 (window_fixed_sample rnd 350 40 40) = 127"
      by (simp only: window_fixed_sample_soft_tissue_mid [OF r] astype_uint8_vals)
    then show ?thesis
      using that by (simp add: lower_bound_def upper_bound_def)
  qed
  have E: "apply_windowing rnd current_preset g
            = Inr (map (map (\<lambda>x. astype_uint8 (window_fixed_sample rnd w c x))) g)"
    if "current_preset < length window_presets
          \<and> window_presets ! current_preset = (preset_name, Some w, Some c)"
    using that A by (simp add: apply_windowing_def)
  show ?thesis
    using A B C D E by blast
qed

theorem apply_window_fixed_preset_witness:
  "fp_rounding (\<lambda>a. a) \<and> ''Soft Tissue'' \<noteq> ''Auto'' \<and> (0::int) < 350 \<and> (350::int) \<le> 2 ^ 22
   \<and> \<bar>40::int\<bar> \<le> 2 ^ 22
   \<and> apply_window (\<lambda>a. a) (''Soft Tissue'', Some 350, Some 40) [[40, - 200, 300]]
       = Inr [[127, 0, 255]]
   \<and> window_presets ! 1 = (''Soft Tissue'', Some 350, Some 40)
   \<and> apply_windowing (\<lambda>a. a) 1 [[40, - 200, 300]] = Inr [[127, 0, 255]]"
  using apply_window_fixed_preset [of "\<lambda>a. a" "''Soft Tissue''" 350 40 "[[40, - 200, 300]]" 1]
  by (simp add: fp_rounding_def window_fixed_sample_def lower_bound_def upper_bound_def
      window_presets_def
      np_clip_def astype_uint8_def)

text \<open>
  C7. Windowing never divides by zero: \<^verbatim>\<open>apply_windowing\<close> never ends in the
  divide-by-zero signal, whatever the preset and whatever the index of the current one. Auto windowing of a grid whose observed
  minimum equals its observed maximum (in particular a grid of equal samples) gives the
  all-zero grid, and so does a fixed preset with \<open>upper \<le> lower\<close>.
\<close>

theorem apply_window_never_divides_by_zero:
  assumes r: "fp_rounding rnd" and g: "\<forall>x \<in> set (concat g). representable rnd x"
  shows "apply_window rnd p g \<noteq> Inl FloatingPointError
     \<and> apply_windowing rnd current_preset g \<noteq> Inl FloatingPointError
     \<and> (grid_min g = Inr m \<and> grid_max g = Inr m \<longrightarrow>
          apply_window rnd (''Auto'', ww, wc) g = Inr (np_zeros_like g))
     \<and> ((\<forall>x \<in> set (concat g). x = v) \<and> concat g \<noteq> [] \<longrightarrow>
          apply_window rnd (''Auto'', ww, wc) g = Inr (np_zeros_like g))
     \<and> (preset_name \<noteq> ''Auto'' \<and> upper_bound w c \<le> lower_bound w c \<longrightarrow>
          apply_window rnd (preset_name, Some w, Some c) g = Inr (np_zeros_like g))"
proof -
  have A: "apply_window rnd p g \<noteq> Inl FloatingPointError" for p
    by (rule apply_window_no_fpe [OF r g])
  have A': "apply_windowing rnd current_preset g \<noteq> Inl FloatingPointError"
    using A by (simp add: apply_windowing_def)
  have B: "apply_window rnd (''Auto'', ww, wc) g = Inr (np_zeros_like g)"
    if "grid_min g = Inr m \<and> grid_max g = Inr m"
    using that window_auto_flat [of g m rnd] by (simp add: apply_window_def)
  have C: "apply_window rnd (''Auto'', ww, wc) g = Inr (np_zeros_like g)"
    if h: "(\<forall>x \<in> set (concat g). x = v) \<and> concat g \<noteq> []"
  proof -
    have "grid_min g = Inr v" "grid_max g = Inr v"
      using h grid_min_const [of g v] grid_max_const [of g v] by blast+
    then show ?thesis
      using window_auto_flat [of g v rnd] by (simp add: apply_window_def)
  qed
  have D: "apply_window rnd (preset_name, Some w, Some c) g = Inr (np_zeros_like g)"
    if "preset_name \<noteq> ''Auto'' \<and> upper_bound w c \<le> lower_bound w c"
    using that window_fixed_degenerate [of w c rnd g] by (simp add: apply_window_def)
  show ?thesis
    using A A' B C D by blast
qed

theorem apply_window_never_divides_by_zero_witness:
  "fp_rounding (\<lambda>a. a) \<and> representable (\<lambda>a. a) 5
   \<and> grid_min [[5, 5], [5, 5]] = Inr 5 \<and> grid_max [[5, 5], [5, 5]] = Inr 5
   \<and> apply_window (\<lambda>a. a) (''Auto'', None, None) [[5, 5], [5, 5]] = Inr [[0, 0], [0, 0]]
   \<and> ''Flat'' \<noteq> ''Auto'' \<and> upper_bound 0 40 \<le> lower_bound 0 40
   \<and> apply_window (\<lambda>a. a) (''Flat'', Some 0, Some 40) [[5, 5], [5, 5]] = Inr [[0, 0], [0, 0]]
   \<and> apply_window (\<lambda>a. a) (''Auto'', None, None) [[5, 5], [5, 5]] \<noteq> Inl FloatingPointError
   \<and> apply_windowing (\<lambda>a. a) 0 [[5, 5], [5, 5]] = Inr [[0, 0], [0, 0]]"
  using apply_window_never_divides_by_zero [of "\<lambda>a. a" "[[5, 5], [5, 5]]" "(''Auto'', None, None)"
      0 5 None None 5 "''Flat''" 0 40]
  by (simp add: fp_rounding_def representable_def grid_min_def grid_max_def np_zeros_like_def
      upper_bound_def lower_bound_def apply_windowing_def window_presets_def)

section \<open>Bulk mutation, editability and coercion: facts\<close>

lemma tuplehash_critical:
  "tuplehash (0x0002, 0x0000) = 4685526799349444076"
  "tuplehash (0x0002, 0x0001) = 6794810172467074373"
  "tuplehash (0x0002, 0x0002) = 1901736143494378007"
  "tuplehash (0x0002, 0x0003) = 8409376899596376432"
  "tuplehash (0x0002, 0x0010) = - 7037398204188468789"
  "tuplehash (0x0008, 0x0016) = 2044556420355828469"
  "tuplehash (0x0008, 0x0018) = 3659123147485130528"
  by (simp_all add: tuplehash_def xxlane_def xxrotate_def Let_def)

lemma critical_lookup_misses: "\<not> tag_in_tuple_set t critical_tags"
  by (auto simp add: tag_in_tuple_set_def critical_tags_def tuplehash_critical base_tag_hash_def)

lemma is_editable_tag_iff:
  "is_editable_tag e \<longleftrightarrow>
     VR e \<in> set [''CS'', ''LO'', ''LT'', ''PN'', ''SH'', ''ST'', ''UT'', ''DS'', ''IS'',
                   ''AS'', ''DA'', ''DT'', ''TM'']"
  by (simp only: is_editable_tag_def critical_lookup_misses simp_thms)

text \<open>
  So the test on \<^verbatim>\<open>critical_tags\<close> never blocks: what \<^verbatim>\<open>is_editable_tag\<close> computes is the test
  on the VR alone, and an element with a critical tag and an allowed VR counts as
  editable.
\<close>

lemma critical_tag_counts_as_editable:
  "(0x0008, 0x0018) \<in> set critical_tags \<and> is_editable_tag (DataElement (0x0008, 0x0018) ''LO'' v)"
  by (simp add: is_editable_tag_iff critical_tags_def)

lemma ds_get_tag: "ds_get ds t = Some e \<Longrightarrow> tag e = t"
  by (auto simp add: ds_get_def find_Some_iff)

lemma ds_get_ds_put_same:
  "ds_get ds (tag e') \<noteq> None \<Longrightarrow> ds_get (ds_put ds e') (tag e') = Some e'"
  by (induction ds) (auto simp add: ds_get_def)

lemma ds_get_ds_put_other:
  "t' \<noteq> tag e' \<Longrightarrow> ds_get (ds_put ds e') t' = ds_get ds t'"
  by (induction ds) (auto simp add: ds_get_def)

lemma ds_put_absent: "ds_get ds (tag e') = None \<Longrightarrow> ds_put ds e' = ds"
  by (induction ds) (auto simp add: ds_get_def split: if_splits)

lemma map_tag_ds_put: "map tag (ds_put ds e') = map tag ds"
  by (induction ds) auto

lemma bulk_update_one_absent:
  "ds_get ds t = None \<Longrightarrow> bulk_update_one env t v ds = ds"
  by (simp add: bulk_update_one_def)

lemma bulk_update_one_not_editable:
  "ds_get ds t = Some e \<Longrightarrow> \<not> is_editable_tag e \<Longrightarrow> bulk_update_one env t v ds = ds"
  by (simp add: bulk_update_one_def)

lemma bulk_update_one_raises:
  "ds_get ds t = Some e \<Longrightarrow> set_value env e v = None \<Longrightarrow> bulk_update_one env t v ds = ds"
  by (simp add: bulk_update_one_def assign_value_def)

lemma bulk_update_one_updates:
  assumes "ds_get ds t = Some e" "is_editable_tag e" "set_value env e v = Some stored"
  shows "ds_get (bulk_update_one env t v ds) t = Some (DataElement t (VR e) stored)"
    and "t' \<noteq> t \<Longrightarrow> ds_get (bulk_update_one env t v ds) t' = ds_get ds t'"
proof -
  have te: "tag e = t" using assms(1) by (rule ds_get_tag)
  have b: "bulk_update_one env t v ds = ds_put ds (DataElement t (VR e) stored)"
    using assms te by (simp add: bulk_update_one_def assign_value_def)
  show "ds_get (bulk_update_one env t v ds) t = Some (DataElement t (VR e) stored)"
    using ds_get_ds_put_same [of ds "DataElement t (VR e) stored"] assms(1) by (simp add: b)
  show "ds_get (bulk_update_one env t v ds) t' = ds_get ds t'" if "t' \<noteq> t"
    using ds_get_ds_put_other [of t' "DataElement t (VR e) stored" ds] that by (simp add: b)
qed

lemma bulk_update_tag_all_datasets:
  "all_datasets (snd (bulk_update_tag env a t v vr))
     = map (\<lambda>(file_path, ds). (file_path, bulk_update_one env t v ds)) (all_datasets a)"
  by (simp add: bulk_update_tag_def Let_def split: sum.splits option.splits)

lemma bulk_update_tag_files:
  "map fst (all_datasets (snd (bulk_update_tag env a t v vr))) = map fst (all_datasets a)"
  by (simp add: bulk_update_tag_all_datasets comp_def case_prod_unfold)

lemma bulk_update_tag_nth:
  "i < length (all_datasets a) \<Longrightarrow>
     snd (all_datasets (snd (bulk_update_tag env a t v vr)) ! i)
       = bulk_update_one env t v (snd (all_datasets a ! i))"
  by (simp add: bulk_update_tag_all_datasets case_prod_unfold)

lemma bulk_update_tag_returns_None:
  "current_index a < length (dicom_files a) \<or> length (dicom_files a) \<le> 1 \<Longrightarrow>
     fst (bulk_update_tag env a t v vr) = Inr PyNone"
  by (auto simp add: bulk_update_tag_def Let_def current_file_def split: sum.splits option.splits)

lemma bulk_update_tag_other_fields:
  "dicom_files (snd (bulk_update_tag env a t v vr)) = dicom_files a"
  "current_index (snd (bulk_update_tag env a t v vr)) = current_index a"
  "has_changes (snd (bulk_update_tag env a t v vr)) = has_changes a"
  by (simp_all add: bulk_update_tag_def Let_def split: sum.splits option.splits)

text \<open>
  C3, amended. For every working set, coerced value and field outside the seven
  structural identifiers, \<^verbatim>\<open>bulk_update_tag\<close> keeps the files of the set and goes through
  all of them: in a record that has the field, where the field is editable (for such a
  field: its VR is one of the allowed kinds) and the codec's setter accepts the value,
  the field then holds the stored value and every other field is as before; a record
  that lacks the field, or where the field is not editable or the setter raises, is left
  as it is and does not stop the others. The method returns \<^verbatim>\<open>None\<close>, no count.
\<close>

theorem bulk_update_tag_best_effort:
  "t \<notin> set critical_tags \<longrightarrow>
   map fst (all_datasets (snd (bulk_update_tag env a t v vr))) = map fst (all_datasets a)
   \<and> (\<forall>e. tag e = t \<longrightarrow>
         (is_editable_tag e \<longleftrightarrow>
            tag e \<notin> set critical_tags
            \<and> VR e \<in> set [''CS'', ''LO'', ''LT'', ''PN'', ''SH'', ''ST'', ''UT'', ''DS'', ''IS'',
                           ''AS'', ''DA'', ''DT'', ''TM'']))
   \<and> (\<forall>i e stored. i < length (all_datasets a) \<longrightarrow>
        (ds_get (snd (all_datasets a ! i)) t = Some e \<and> is_editable_tag e
           \<and> set_value env e v = Some stored \<longrightarrow>
         ds_get (snd (all_datasets (snd (bulk_update_tag env a t v vr)) ! i)) t
           = Some (DataElement t (VR e) stored)
         \<and> (\<forall>t'. t' \<noteq> t \<longrightarrow>
              ds_get (snd (all_datasets (snd (bulk_update_tag env a t v vr)) ! i)) t'
                = ds_get (snd (all_datasets a ! i)) t'))
        \<and> (ds_get (snd (all_datasets a ! i)) t = None
           \<or> (ds_get (snd (all_datasets a ! i)) t = Some e
               \<and> (\<not> is_editable_tag e \<or> set_value env e v = None)) \<longrightarrow>
           snd (all_datasets (snd (bulk_update_tag env a t v vr)) ! i) = snd (all_datasets a ! i)))
   \<and> (current_index a < length (dicom_files a) \<longrightarrow>
        fst (bulk_update_tag env a t v vr) = Inr PyNone)"
proof -
  have A: "map fst (all_datasets (snd (bulk_update_tag env a t v vr))) = map fst (all_datasets a)"
    by (rule bulk_update_tag_files)
  have B: "ds_get (snd (all_datasets (snd (bulk_update_tag env a t v vr)) ! i)) t
           = Some (DataElement t (VR e) stored)
         \<and> (\<forall>t'. t' \<noteq> t \<longrightarrow>
              ds_get (snd (all_datasets (snd (bulk_update_tag env a t v vr)) ! i)) t'
                = ds_get (snd (all_datasets a ! i)) t')"
    if "i < length (all_datasets a)"
      and "ds_get (snd (all_datasets a ! i)) t = Some e \<and> is_editable_tag e
           \<and> set_value env e v = Some stored" for i e stored
    using that bulk_update_one_updates [of "snd (all_datasets a ! i)" t e env v stored]
    by (simp add: bulk_update_tag_nth)
  have C: "snd (all_datasets (snd (bulk_update_tag env a t v vr)) ! i) = snd (all_datasets a ! i)"
    if "i < length (all_datasets a)"
      and "ds_get (snd (all_datasets a ! i)) t = None
           \<or> (ds_get (snd (all_datasets a ! i)) t = Some e
               \<and> (\<not> is_editable_tag e \<or> set_value env e v = None))" for i e
    using that bulk_update_one_absent [of "snd (all_datasets a ! i)" t env v]
      bulk_update_one_not_editable [of "snd (all_datasets a ! i)" t e env v]
      bulk_update_one_raises [of "snd (all_datasets a ! i)" t e env v]
    by (auto simp add: bulk_update_tag_nth)
  have D: "fst (bulk_update_tag env a t v vr) = Inr PyNone"
    if "current_index a < length (dicom_files a)"
    using that by (simp add: bulk_update_tag_returns_None)
  have E: "is_editable_tag e \<longleftrightarrow>
            tag e \<notin> set critical_tags
            \<and> VR e \<in> set [''CS'', ''LO'', ''LT'', ''PN'', ''SH'', ''ST'', ''UT'', ''DS'', ''IS'',
                           ''AS'', ''DA'', ''DT'', ''TM'']"
    if "t \<notin> set critical_tags" and "tag e = t" for e
    using that by (simp only: is_editable_tag_iff simp_thms)
  show ?thesis
    using A B C D E by blast
qed

lemma example_record_simps:
  "example_record (Some s) n =
     [DataElement (0x0008, 0x0060) ''CS'' (PyStr ''CT''),
      DataElement (0x0010, 0x0010) ''PN'' (PyStr s),
      DataElement (0x0020, 0x0013) ''IS'' (PyInt n)]"
  "example_record None n =
     [DataElement (0x0008, 0x0060) ''CS'' (PyStr ''CT''),
      DataElement (0x0020, 0x0013) ''IS'' (PyInt n)]"
  by (simp_all add: example_record_def)

lemma example_bulk:
  "bulk_update_tag example_env example_app3 (0x0010, 0x0010) (PyStr ''DOE'') ''PN''
     = (Inr PyNone,
        example_app3\<lparr>all_datasets :=
            [(''a.dcm'', example_record (Some ''DOE'') 1),
             (''b.dcm'', example_record None 2),
             (''c.dcm'', example_record (Some ''DOE'') 3)],
          dataset := Some (example_record (Some ''DOE'') 1)\<rparr>)"
  by (simp add: bulk_update_tag_def Let_def example_app3_def example_env_def current_file_def
      bulk_update_one_def assign_value_def ds_get_def is_editable_tag_iff
      example_record_simps)

text \<open>
  C3, as stated, fails on the return value: \<^verbatim>\<open>bulk_update_tag\<close> is declared \<^verbatim>\<open>-> None\<close>
  and has no \<^verbatim>\<open>return\<close>. On the three-record set, where the second record lacks the
  patient name, it updates two records and returns \<^verbatim>\<open>None\<close>, not the count 2.
\<close>

theorem bulk_update_tag_returns_no_count:
  "fst (bulk_update_tag example_env example_app3 (0x0010, 0x0010) (PyStr ''DOE'') ''PN'') = Inr PyNone
   \<and> fst (bulk_update_tag example_env example_app3 (0x0010, 0x0010) (PyStr ''DOE'') ''PN'') \<noteq> Inr (PyInt 2)"
  by (simp add: example_bulk)

theorem bulk_update_tag_best_effort_witness:
  "all_datasets (snd (bulk_update_tag example_env example_app3 (0x0010, 0x0010) (PyStr ''DOE'') ''PN''))
     = [(''a.dcm'', example_record (Some ''DOE'') 1),
        (''b.dcm'', example_record None 2),
        (''c.dcm'', example_record (Some ''DOE'') 3)]
   \<and> (0x0010, 0x0010) \<notin> set critical_tags
   \<and> ds_get (example_record (Some ''ROE'') 1) (0x0010, 0x0010)
        = Some (DataElement (0x0010, 0x0010) ''PN'' (PyStr ''ROE''))
   \<and> is_editable_tag (DataElement (0x0010, 0x0010) ''PN'' (PyStr ''ROE''))
   \<and> ds_get (example_record None 2) (0x0010, 0x0010) = None
   \<and> ds_get (snd (all_datasets (snd (bulk_update_tag example_env example_app3 (0x0010, 0x0010)
         (PyStr ''DOE'') ''PN'')) ! 0)) (0x0010, 0x0010)
        = Some (DataElement (0x0010, 0x0010) ''PN'' (PyStr ''DOE''))
   \<and> length (filter (\<lambda>(before, after). snd before \<noteq> snd after)
        (zip (all_datasets example_app3)
          (all_datasets (snd (bulk_update_tag example_env example_app3 (0x0010, 0x0010)
             (PyStr ''DOE'') ''PN''))))) = 2
   \<and> fst (bulk_update_tag example_env example_app3 (0x0010, 0x0010) (PyStr ''DOE'') ''PN'') = Inr PyNone"
  using bulk_update_tag_best_effort [of "(0x0010, 0x0010)" example_env example_app3 "PyStr ''DOE''" "''PN''"]
  by (simp add: example_bulk)
    (simp add: example_app3_def example_record_simps ds_get_def is_editable_tag_iff
      critical_tags_def)

lemma add_element_to_tree_no_slice_specific:
  "1 < n \<Longrightarrow> ti \<in> set (add_element_to_tree n path e) \<Longrightarrow> \<not> is_slice_specific_tag (info_tag ti)"
  "1 < n \<Longrightarrow> ti \<in> set (add_sequence_items n path t i items) \<Longrightarrow> \<not> is_slice_specific_tag (info_tag ti)"
  "1 < n \<Longrightarrow> ti \<in> set (add_item_elements n path es) \<Longrightarrow> \<not> is_slice_specific_tag (info_tag ti)"
proof (induction n path e and n path t i items and n path es
    rule: add_element_to_tree_add_sequence_items_add_item_elements.induct)
  case (1 n path t vr v)
  then show ?case
    by (auto split: if_splits pyval.splits)
next
  case (2 n path t i)
  then show ?case by simp
next
  case (3 n path t i item items)
  then show ?case by auto
next
  case (4 n path)
  then show ?case by simp
next
  case (5 n path e es)
  then show ?case by auto
qed

lemma populate_tree_no_slice_specific:
  "1 < length (dicom_files a) \<Longrightarrow> ti \<in> set (populate_tree a) \<Longrightarrow> \<not> is_slice_specific_tag (info_tag ti)"
  using add_element_to_tree_no_slice_specific(3) [of "length (dicom_files a)" ti "[]"]
  by (auto simp add: populate_tree_def split: option.splits)

lemma add_element_to_tree_single:
  assumes "n \<le> 1" "VR e \<noteq> ''SQ''" "is_editable_tag e"
  shows "add_element_to_tree n path e = [\<lparr>info_tag = tag e, info_vr = VR e, info_path = path\<rparr>]"
  using assms by (cases e) auto

lemma add_item_elements_mem:
  "e \<in> set es \<Longrightarrow> set (add_element_to_tree n path e) \<subseteq> set (add_item_elements n path es)"
  by (induction es) auto

lemma populate_tree_single:
  assumes "length (dicom_files a) \<le> 1" "dataset a = Some ds" "el \<in> set ds"
    "VR el \<noteq> ''SQ''" "is_editable_tag el"
  shows "\<lparr>info_tag = tag el, info_vr = VR el, info_path = []\<rparr> \<in> set (populate_tree a)"
proof -
  have "add_element_to_tree (length (dicom_files a)) [] el
          = [\<lparr>info_tag = tag el, info_vr = VR el, info_path = []\<rparr>]"
    using assms by (simp add: add_element_to_tree_single)
  then show ?thesis
    using add_item_elements_mem [OF assms(3), of "length (dicom_files a)" "[]"] assms(2)
    by (auto simp add: populate_tree_def)
qed

lemma handle_edit_result_no_entry: "handle_edit_result env a nv None = a"
  by (simp add: handle_edit_result_def split: option.splits)

text \<open>
  C10. \<^verbatim>\<open>bulk_update_tag\<close> checks \<^verbatim>\<open>is_editable_tag\<close> only: given a slice-specific tag, it
  sets the field in every record where the field is present, editable and accepted by
  the setter. The protection lies upstream: with more than one file loaded, tree
  population puts no slice-specific tag into the tag map (with a single file it does), and
  \<^verbatim>\<open>handle_edit_result\<close> does nothing for a node without a tag map entry.
\<close>

theorem slice_specific_guard_is_upstream:
  "(is_slice_specific_tag t \<and> i < length (all_datasets a)
      \<and> ds_get (snd (all_datasets a ! i)) t = Some e \<and> is_editable_tag e
      \<and> set_value env e v = Some stored \<longrightarrow>
    ds_get (snd (all_datasets (snd (bulk_update_tag env a t v vr)) ! i)) t
      = Some (DataElement t (VR e) stored))
   \<and> (1 < length (dicom_files a) \<and> ti \<in> set (populate_tree a) \<longrightarrow>
        \<not> is_slice_specific_tag (info_tag ti))
   \<and> (length (dicom_files a) \<le> 1 \<and> dataset a = Some ds \<and> el \<in> set ds
        \<and> VR el \<noteq> ''SQ'' \<and> is_editable_tag el \<longrightarrow>
        \<lparr>info_tag = tag el, info_vr = VR el, info_path = []\<rparr> \<in> set (populate_tree a))
   \<and> handle_edit_result env a nv None = a"
proof -
  have A: "ds_get (snd (all_datasets (snd (bulk_update_tag env a t v vr)) ! i)) t
      = Some (DataElement t (VR e) stored)"
    if "is_slice_specific_tag t \<and> i < length (all_datasets a)
      \<and> ds_get (snd (all_datasets a ! i)) t = Some e \<and> is_editable_tag e
      \<and> set_value env e v = Some stored"
    using that bulk_update_one_updates(1) [of "snd (all_datasets a ! i)" t e env v stored]
    by (simp add: bulk_update_tag_nth)
  show ?thesis
    using A populate_tree_no_slice_specific [of a ti] populate_tree_single [of a ds el]
      handle_edit_result_no_entry [of env a nv]
    by blast
qed

theorem slice_specific_guard_is_upstream_witness:
  "is_slice_specific_tag (0x0020, 0x0013)
   \<and> is_editable_tag (DataElement (0x0020, 0x0013) ''IS'' (PyInt 2))
   \<and> map (\<lambda>(p, ds). ds_get ds (0x0020, 0x0013))
        (all_datasets (snd (bulk_update_tag example_env example_app3 (0x0020, 0x0013) (PyInt 7) ''IS'')))
       = [Some (DataElement (0x0020, 0x0013) ''IS'' (PyInt 7)),
          Some (DataElement (0x0020, 0x0013) ''IS'' (PyInt 7)),
          Some (DataElement (0x0020, 0x0013) ''IS'' (PyInt 7))]
   \<and> map info_tag (populate_tree example_app3) = [(0x0008, 0x0060), (0x0010, 0x0010)]
   \<and> map info_tag (populate_tree example_app1) = [(0x0008, 0x0060), (0x0010, 0x0010), (0x0020, 0x0013)]"
  using slice_specific_guard_is_upstream [of "(0x0020, 0x0013)" 1 example_app3
      "DataElement (0x0020, 0x0013) ''IS'' (PyInt 2)" example_env "PyInt 7" "PyInt 7" "''IS''"
      "\<lparr>info_tag = (0x0010, 0x0010), info_vr = ''PN'', info_path = []\<rparr>"
      "example_record (Some ''ROE'') 1" "DataElement (0x0020, 0x0013) ''IS'' (PyInt 1)" None]
  by (simp add: bulk_update_tag_all_datasets)
    (simp add: example_app3_def example_app1_def example_env_def example_record_simps
      populate_tree_def bulk_update_one_def assign_value_def ds_get_def
      is_editable_tag_iff is_slice_specific_tag_def slice_specific_tags_def)

lemma convert_empty:
  "convert_value_for_vr env [] ''DS'' = Inr (PyFloat (Finite 0))"
  "convert_value_for_vr env [] ''IS'' = Inr (PyInt 0)"
  by (simp_all add: convert_value_for_vr_def)

lemma convert_non_numeric:
  "s \<noteq> [] \<Longrightarrow> py_float env s = None \<Longrightarrow> convert_value_for_vr env s ''DS'' = Inl ValueError"
  "s \<noteq> [] \<Longrightarrow> py_int env s = None \<Longrightarrow> convert_value_for_vr env s ''IS'' = Inl ValueError"
  by (simp_all add: convert_value_for_vr_def)

lemma handle_edit_result_rejected:
  "convert_value_for_vr env nv (info_vr ti) = Inl e \<Longrightarrow>
     handle_edit_result env a (Some nv) (Some ti) = a"
  by (simp add: handle_edit_result_def split: option.splits)

text \<open>
  C9. Coercing the empty string gives \<open>0.0\<close> for the decimal kind (\<^verbatim>\<open>DS\<close>) and \<open>0\<close> for the
  integer kind (\<^verbatim>\<open>IS\<close>); a non-empty string that \<^verbatim>\<open>float\<close>, respectively \<^verbatim>\<open>int\<close>, rejects
  fails with \<^verbatim>\<open>ValueError\<close> (the spec's \<open>InvalidFormat\<close>); and when the coercion fails,
  \<^verbatim>\<open>handle_edit_result\<close> leaves the whole state as it was: no record is touched and
  \<^verbatim>\<open>has_changes\<close> keeps its value.
\<close>

theorem coercion_failure_rejects_edit:
  "convert_value_for_vr env [] ''DS'' = Inr (PyFloat (Finite 0))
   \<and> convert_value_for_vr env [] ''IS'' = Inr (PyInt 0)
   \<and> (s \<noteq> [] \<and> py_float env s = None \<longrightarrow> convert_value_for_vr env s ''DS'' = Inl ValueError)
   \<and> (s \<noteq> [] \<and> py_int env s = None \<longrightarrow> convert_value_for_vr env s ''IS'' = Inl ValueError)
   \<and> (convert_value_for_vr env nv (info_vr ti) = Inl e \<longrightarrow>
        handle_edit_result env a (Some nv) (Some ti) = a)"
  using convert_empty [of env] convert_non_numeric [of s env] handle_edit_result_rejected [of env nv ti e a]
  by blast

theorem coercion_failure_rejects_edit_witness:
  "py_float example_env ''abc'' = None \<and> py_int example_env ''abc'' = None
   \<and> convert_value_for_vr example_env ''abc'' ''DS'' = Inl ValueError
   \<and> convert_value_for_vr example_env ''abc'' ''IS'' = Inl ValueError
   \<and> handle_edit_result example_env example_app3 (Some ''abc'')
        (Some \<lparr>info_tag = (0x0020, 0x0013), info_vr = ''IS'', info_path = []\<rparr>) = example_app3
   \<and> handle_edit_result example_env example_app1 (Some ''abc'')
        (Some \<lparr>info_tag = (0x0020, 0x0013), info_vr = ''IS'', info_path = []\<rparr>) = example_app1
   \<and> handle_edit_result example_env example_app1 (Some ''7'')
        (Some \<lparr>info_tag = (0x0020, 0x0013), info_vr = ''IS'', info_path = []\<rparr>)
       = example_app1\<lparr>dataset := Some (example_record (Some ''ROE'') 7), has_changes := True\<rparr>"
  using coercion_failure_rejects_edit [of example_env "''abc''" "''abc''"
      "\<lparr>info_tag = (0x0020, 0x0013), info_vr = ''IS'', info_path = []\<rparr>" ValueError example_app3]
    coercion_failure_rejects_edit [of example_env "''abc''" "''abc''"
      "\<lparr>info_tag = (0x0020, 0x0013), info_vr = ''IS'', info_path = []\<rparr>" ValueError example_app1]
  by (simp add: example_env_def)
    (simp add: handle_edit_result_def example_app1_def example_record_simps ds_get_def
      convert_value_for_vr_def assign_value_def)

section \<open>Write transaction: facts\<close>

lemma backup_path_neq [simp]: "backup_path_of p \<noteq> p" "p \<noteq> backup_path_of p"
  by (simp_all add: backup_path_of_def)

lemma backup_path_inj [simp]: "backup_path_of p = backup_path_of q \<longleftrightarrow> p = q"
  by (simp add: backup_path_of_def)

lemma backup_step_present:
  "disk (backup_path_of p) \<noteq> None \<Longrightarrow> backup_step disk bks p = Inr (disk, bks)"
  by (simp add: backup_step_def Let_def)

lemma backup_step_copy:
  "disk (backup_path_of p) = None \<Longrightarrow> disk p = Some b \<Longrightarrow>
     backup_step disk bks p = Inr (disk(backup_path_of p \<mapsto> b), bks @ [backup_path_of p])"
  by (simp add: backup_step_def Let_def copy2_def)

lemma backup_step_missing:
  "disk (backup_path_of p) = None \<Longrightarrow> disk p = None \<Longrightarrow>
     backup_step disk bks p = Inl (FileNotFoundError p)"
  by (simp add: backup_step_def Let_def copy2_def)

lemma backup_step_Inl:
  "backup_step disk bks p = Inl e \<Longrightarrow> e = FileNotFoundError p"
  by (auto simp add: backup_step_def Let_def copy2_def split: if_splits option.splits)

lemma backup_step_Inr:
  assumes "backup_step disk bks p = Inr (d1, b1)"
  shows "d1 (backup_path_of p) \<noteq> None"
    and "disk x \<noteq> None \<Longrightarrow> d1 x = disk x"
    and "x \<noteq> backup_path_of p \<Longrightarrow> d1 x = disk x"
    and "set bks \<subseteq> set b1"
    and "b \<in> set b1 \<Longrightarrow> b \<in> set bks \<or> disk b = None"
    and "disk (backup_path_of p) = None \<Longrightarrow> backup_path_of p \<in> set b1"
  using assms
  by (auto simp add: backup_step_def Let_def copy2_def split: if_splits option.splits)

lemma save_one_frame:
  assumes "save_one io p ds disk bks = (r, d', b')" "disk x \<noteq> None" "x \<noteq> p"
  shows "d' x = disk x"
  using assms backup_step_Inr(2) [of disk bks p _ _ x]
  by (auto simp add: save_one_def split: sum.splits prod.splits write_result.splits)

lemma save_one_bks:
  assumes "save_one io p ds disk bks = (r, d', b')"
  shows "set bks \<subseteq> set b'" and "b \<in> set b' \<Longrightarrow> b \<in> set bks \<or> disk b = None"
  using assms backup_step_Inr(4) [of disk bks p] backup_step_Inr(5) [of disk bks p _ _ b]
  by (auto simp add: save_one_def split: sum.splits prod.splits write_result.splits)

lemma save_one_ok:
  assumes "save_one io p ds disk bks = (None, d', b')"
  shows "d' p \<noteq> None" and "d' (backup_path_of p) \<noteq> None"
    and "disk x \<noteq> None \<Longrightarrow> d' x \<noteq> None"
    and "disk (backup_path_of p) = None \<Longrightarrow> backup_path_of p \<in> set b'"
    and "x \<noteq> p \<Longrightarrow> x \<noteq> backup_path_of p \<Longrightarrow> d' x = disk x"
  using assms backup_step_Inr(1) [of disk bks p] backup_step_Inr(2) [of disk bks p _ _ x]
    backup_step_Inr(3) [of disk bks p _ _ x] backup_step_Inr(6) [of disk bks p]
  by (auto simp add: save_one_def split: sum.splits prod.splits write_result.splits)

lemma save_one_write_failed:
  assumes "save_one io p ds disk bks = (Some (WriteError q), d', b')"
  shows "q = p" and "d' (backup_path_of p) \<noteq> None"
    and "save_as io ds p (disk p) = WriteRaised (d' p)"
  using assms backup_step_Inr(1) [of disk bks p] backup_step_Inr(3) [of disk bks p _ _ p]
    backup_step_Inl [of disk bks p]
  by (auto simp add: save_one_def split: sum.splits prod.splits write_result.splits)

lemma save_all_frame:
  "save_all io xs disk bks = (r, d', b') \<Longrightarrow> disk x \<noteq> None \<Longrightarrow> x \<notin> fst ` set xs \<Longrightarrow> d' x = disk x"
proof (induction xs arbitrary: disk bks)
  case Nil
  then show ?case by simp
next
  case (Cons a xs)
  obtain p ds where a: "a = (p, ds)" by (cases a)
  obtain r1 d1 b1 where s1: "save_one io p ds disk bks = (r1, d1, b1)"
    by (cases "save_one io p ds disk bks")
  have xp: "x \<noteq> p" using Cons.prems(3) a by auto
  have d1x: "d1 x = disk x" using save_one_frame [OF s1 Cons.prems(2) xp] .
  show ?case
  proof (cases r1)
    case None
    then have "save_all io xs d1 b1 = (r, d', b')"
      using Cons.prems(1) a s1 by simp
    then have "d' x = d1 x"
      using Cons.IH [of d1 b1] Cons.prems d1x by auto
    then show ?thesis using d1x by simp
  next
    case (Some e)
    then show ?thesis using Cons.prems(1) a s1 d1x by simp
  qed
qed

lemma save_all_dom:
  "save_all io xs disk bks = (None, d', b') \<Longrightarrow> disk x \<noteq> None \<Longrightarrow> d' x \<noteq> None"
proof (induction xs arbitrary: disk bks)
  case Nil
  then show ?case by simp
next
  case (Cons a xs)
  obtain p ds where a: "a = (p, ds)" by (cases a)
  obtain r1 d1 b1 where s1: "save_one io p ds disk bks = (r1, d1, b1)"
    by (cases "save_one io p ds disk bks")
  show ?case
  proof (cases r1)
    case None
    then have rest: "save_all io xs d1 b1 = (None, d', b')"
      using Cons.prems(1) a s1 by simp
    have "d1 x \<noteq> None" using save_one_ok(3) [of io p ds disk bks d1 b1 x] s1 None Cons.prems(2) by simp
    then show ?thesis using Cons.IH [OF rest] by simp
  next
    case (Some e)
    then show ?thesis using Cons.prems(1) a s1 by simp
  qed
qed

lemma save_all_bks:
  "save_all io xs disk bks = (r, d', b') \<Longrightarrow> b \<in> set b' \<Longrightarrow> b \<in> set bks \<or> disk b = None"
proof (induction xs arbitrary: disk bks)
  case Nil
  then show ?case by simp
next
  case (Cons a xs)
  obtain p ds where a: "a = (p, ds)" by (cases a)
  obtain r1 d1 b1 where s1: "save_one io p ds disk bks = (r1, d1, b1)"
    by (cases "save_one io p ds disk bks")
  show ?case
  proof (cases r1)
    case None
    then have rest: "save_all io xs d1 b1 = (r, d', b')"
      using Cons.prems(1) a s1 by simp
    have "b \<in> set b1 \<or> d1 b = None" using Cons.IH [OF rest Cons.prems(2)] .
    then show ?thesis
    proof
      assume "b \<in> set b1"
      then show ?thesis using save_one_bks(2) [OF s1] by simp
    next
      assume n: "d1 b = None"
      have "disk b = None"
      proof (rule ccontr)
        assume "disk b \<noteq> None"
        then have "d1 b \<noteq> None"
          using save_one_ok(3) [of io p ds disk bks d1 b1 b] s1 None by simp
        then show False using n by simp
      qed
      then show ?thesis by simp
    qed
  next
    case (Some e)
    then have "b' = b1" using Cons.prems(1) a s1 by simp
    then show ?thesis using save_one_bks(2) [OF s1, of b] Cons.prems(2) by simp
  qed
qed

lemma save_all_bks_mono:
  "save_all io xs disk bks = (r, d', b') \<Longrightarrow> set bks \<subseteq> set b'"
proof (induction xs arbitrary: disk bks)
  case Nil
  then show ?case by simp
next
  case (Cons a xs)
  obtain p ds where a: "a = (p, ds)" by (cases a)
  obtain r1 d1 b1 where s1: "save_one io p ds disk bks = (r1, d1, b1)"
    by (cases "save_one io p ds disk bks")
  show ?case
  proof (cases r1)
    case None
    then have rest: "save_all io xs d1 b1 = (r, d', b')"
      using Cons.prems(1) a s1 by simp
    show ?thesis using Cons.IH [OF rest] save_one_bks(1) [OF s1] by blast
  next
    case (Some e)
    then have "b' = b1" using Cons.prems(1) a s1 by simp
    then show ?thesis using save_one_bks(1) [OF s1] by simp
  qed
qed

lemma save_all_backed_up:
  "save_all io xs disk bks = (None, d', b') \<Longrightarrow> p \<in> fst ` set xs \<Longrightarrow>
   disk (backup_path_of p) = None \<Longrightarrow> (\<forall>q \<in> fst ` set xs. disk q \<noteq> None) \<Longrightarrow>
   backup_path_of p \<in> set b'"
proof (induction xs arbitrary: disk bks)
  case Nil
  then show ?case by simp
next
  case (Cons a xs)
  obtain q ds where a: "a = (q, ds)" by (cases a)
  obtain r1 d1 b1 where s1: "save_one io q ds disk bks = (r1, d1, b1)"
    by (cases "save_one io q ds disk bks")
  have r1: "r1 = None" using Cons.prems(1) a s1 by (cases r1) auto
  have rest: "save_all io xs d1 b1 = (None, d', b')"
    using Cons.prems(1) a s1 r1 by simp
  have s1': "save_one io q ds disk bks = (None, d1, b1)" using s1 r1 by simp
  show ?case
  proof (cases "p = q")
    case True
    have "backup_path_of p \<in> set b1"
      using save_one_ok(4) [OF s1'] Cons.prems(3) True by simp
    then show ?thesis using save_all_bks_mono [OF rest] by blast
  next
    case False
    then have pin: "p \<in> fst ` set xs" using Cons.prems(2) a by auto
    have qex: "disk q \<noteq> None" using Cons.prems(4) a by simp
    have "backup_path_of p \<noteq> q" using qex Cons.prems(3) by auto
    moreover have "backup_path_of p \<noteq> backup_path_of q" using False by simp
    ultimately have "d1 (backup_path_of p) = disk (backup_path_of p)"
      using save_one_ok(5) [OF s1', of "backup_path_of p"] by simp
    then have n: "d1 (backup_path_of p) = None" using Cons.prems(3) by simp
    have ex: "\<forall>q' \<in> fst ` set xs. d1 q' \<noteq> None"
      using Cons.prems(4) save_one_ok(3) [OF s1'] by auto
    show ?thesis using Cons.IH [OF rest pin n ex] .
  qed
qed

lemma save_all_write_failed:
  "save_all io xs disk bks = (Some (WriteError p), d', b') \<Longrightarrow> distinct (map fst xs) \<Longrightarrow>
   \<exists>ds. (p, ds) \<in> set xs \<and> d' (backup_path_of p) \<noteq> None
         \<and> (disk p \<noteq> None \<longrightarrow> save_as io ds p (disk p) = WriteRaised (d' p))"
proof (induction xs arbitrary: disk bks)
  case Nil
  then show ?case by simp
next
  case (Cons a xs)
  obtain q ds where a: "a = (q, ds)" by (cases a)
  obtain r1 d1 b1 where s1: "save_one io q ds disk bks = (r1, d1, b1)"
    by (cases "save_one io q ds disk bks")
  show ?case
  proof (cases r1)
    case None
    then have rest: "save_all io xs d1 b1 = (Some (WriteError p), d', b')"
      using Cons.prems(1) a s1 by simp
    have dist: "distinct (map fst xs)" using Cons.prems(2) by simp
    obtain ds' where m: "(p, ds') \<in> set xs" and bk: "d' (backup_path_of p) \<noteq> None"
      and w: "d1 p \<noteq> None \<longrightarrow> save_as io ds' p (d1 p) = WriteRaised (d' p)"
      using Cons.IH [OF rest dist] by blast
    have "p \<in> fst ` set xs" using m by force
    then have pq: "p \<noteq> q" using Cons.prems(2) a by auto
    have "disk p \<noteq> None \<longrightarrow> d1 p = disk p"
      using save_one_frame [OF s1 _ pq] by simp
    then show ?thesis using m bk w by auto
  next
    case (Some e)
    then have e: "e = WriteError p" "d' = d1" using Cons.prems(1) a s1 by simp_all
    have s1': "save_one io q ds disk bks = (Some (WriteError p), d', b1)" using s1 Some e by simp
    have "p = q" "d' (backup_path_of q) \<noteq> None" "save_as io ds q (disk q) = WriteRaised (d' q)"
      using save_one_write_failed [OF s1'] by simp_all
    then show ?thesis using a by auto
  qed
qed

lemma cleanup_absent:
  "disk x = None \<Longrightarrow> cleanup_backup_files io disk bks x = None"
  by (induction bks arbitrary: disk) auto

lemma cleanup_notin:
  "x \<notin> set bks \<Longrightarrow> cleanup_backup_files io disk bks x = disk x"
  by (induction bks arbitrary: disk) auto

lemma cleanup_deleted:
  "x \<in> set bks \<Longrightarrow> unlink_ok io x \<Longrightarrow> cleanup_backup_files io disk bks x = None"
proof (induction bks arbitrary: disk)
  case Nil
  then show ?case by simp
next
  case (Cons b bks)
  show ?case
  proof (cases "x = b")
    case True
    then show ?thesis using Cons.prems(2) by (simp add: cleanup_absent)
  next
    case False
    then show ?thesis using Cons by simp
  qed
qed

lemma save_all_single: "save_all io [(p, ds)] disk bks = save_one io p ds disk bks"
  by (cases "save_one io p ds disk bks") (auto split: option.splits)

lemma save_single_Some:
  "current_file a = Inr p \<Longrightarrow> dataset a = Some ds \<Longrightarrow>
     save_single io a disk = save_all io [(p, ds)] disk []"
  by (simp add: save_all_single save_single_def save_one_def
      split: sum.splits prod.splits write_result.splits)

lemma save_single_None:
  "current_file a = Inr p \<Longrightarrow> dataset a = None \<Longrightarrow> save_single io a disk = (r, d', b') \<Longrightarrow>
     (r = Some (FileNotFoundError p) \<and> d' = disk \<and> b' = [])
     \<or> (r = Some AttributeError \<and> backup_step disk [] p = Inr (d', b'))"
  using backup_step_Inl [of disk "[]" p]
  by (auto simp add: save_single_def split: sum.splits prod.splits)

lemma save_single_Inl:
  "current_file a = Inl e \<Longrightarrow> save_single io a disk = (Some e, disk, [])"
  by (simp add: save_single_def)

lemma save_attempt_frame:
  assumes s: "save_attempt io a disk = (r, d', b')" and x: "disk x \<noteq> None"
    and nt: "x \<notin> set (save_targets a)"
  shows "d' x = disk x"
proof (cases "length (dicom_files a) > 1")
  case True
  then show ?thesis
    using s x nt save_all_frame [of io "all_datasets a" disk "[]" r d' b' x]
    by (simp add: save_attempt_def save_targets_def)
next
  case False
  note single = this
  show ?thesis
  proof (cases "current_file a")
    case (Inl e)
    then show ?thesis using s single save_single_Inl [of a e io disk] by (simp add: save_attempt_def)
  next
    case (Inr p)
    have xp: "x \<noteq> p" using nt single Inr by (simp add: save_targets_def)
    show ?thesis
    proof (cases "dataset a")
      case None
      have ss: "save_single io a disk = (r, d', b')" using s single by (simp add: save_attempt_def)
      show ?thesis
        using save_single_None [OF Inr None ss] backup_step_Inr(2) [of disk "[]" p d' b' x] x by auto
    next
      case (Some ds)
      have "save_all io [(p, ds)] disk [] = (r, d', b')"
        using s single save_single_Some [OF Inr Some] by (simp add: save_attempt_def)
      then show ?thesis
        using save_all_frame [of io "[(p, ds)]" disk "[]" r d' b' x] x xp by simp
    qed
  qed
qed

lemma save_attempt_bks:
  assumes s: "save_attempt io a disk = (r, d', b')" and b: "b \<in> set b'"
  shows "disk b = None"
proof (cases "length (dicom_files a) > 1")
  case True
  then show ?thesis
    using s b save_all_bks [of io "all_datasets a" disk "[]" r d' b' b]
    by (simp add: save_attempt_def)
next
  case False
  note single = this
  show ?thesis
  proof (cases "current_file a")
    case (Inl e)
    then show ?thesis using s b single save_single_Inl [of a e io disk] by (simp add: save_attempt_def)
  next
    case (Inr p)
    show ?thesis
    proof (cases "dataset a")
      case None
      have ss: "save_single io a disk = (r, d', b')" using s single by (simp add: save_attempt_def)
      show ?thesis
        using save_single_None [OF Inr None ss] backup_step_Inr(5) [of disk "[]" p d' b' b] b by auto
    next
      case (Some ds)
      have "save_all io [(p, ds)] disk [] = (r, d', b')"
        using s single save_single_Some [OF Inr Some] by (simp add: save_attempt_def)
      then show ?thesis
        using save_all_bks [of io "[(p, ds)]" disk "[]" r d' b' b] b by simp
    qed
  qed
qed

lemma save_attempt_complete:
  assumes s: "save_attempt io a disk = (None, d', b')"
  shows "disk x \<noteq> None \<Longrightarrow> d' x \<noteq> None"
    and "p \<in> set (save_targets a) \<Longrightarrow> disk (backup_path_of p) = None \<Longrightarrow>
         (\<forall>q \<in> set (save_targets a). disk q \<noteq> None) \<Longrightarrow> backup_path_of p \<in> set b'"
proof -
  have "\<exists>xs. save_all io xs disk [] = (None, d', b') \<and> set (save_targets a) = fst ` set xs"
  proof (cases "length (dicom_files a) > 1")
    case True
    then show ?thesis using s by (auto simp add: save_attempt_def save_targets_def)
  next
    case False
    note single = this
    have ss: "save_single io a disk = (None, d', b')" using s single by (simp add: save_attempt_def)
    show ?thesis
    proof (cases "current_file a")
      case (Inl e)
      then show ?thesis using ss save_single_Inl [of a e io disk] by simp
    next
      case (Inr p)
      show ?thesis
      proof (cases "dataset a")
        case None
        then show ?thesis using save_single_None [OF Inr None ss] by simp
      next
        case (Some ds)
        have "save_all io [(p, ds)] disk [] = (None, d', b')"
          using ss save_single_Some [OF Inr Some] by simp
        moreover have "set (save_targets a) = fst ` set [(p, ds)]"
          using single Inr by (simp add: save_targets_def)
        ultimately show ?thesis by blast
      qed
    qed
  qed
  then obtain xs where xs: "save_all io xs disk [] = (None, d', b')"
    and t: "set (save_targets a) = fst ` set xs" by blast
  show "disk x \<noteq> None \<Longrightarrow> d' x \<noteq> None"
    using save_all_dom [OF xs] by simp
  show "p \<in> set (save_targets a) \<Longrightarrow> disk (backup_path_of p) = None \<Longrightarrow>
         (\<forall>q \<in> set (save_targets a). disk q \<noteq> None) \<Longrightarrow> backup_path_of p \<in> set b'"
    using save_all_backed_up [OF xs, of p] t by simp
qed

lemma save_attempt_write_failed:
  assumes s: "save_attempt io a disk = (Some (WriteError p), d', b')"
    and dist: "distinct (map fst (all_datasets a))"
  shows "p \<in> set (save_targets a)" and "d' (backup_path_of p) \<noteq> None"
    and "disk p \<noteq> None \<Longrightarrow> \<exists>ds. save_as io ds p (disk p) = WriteRaised (d' p)"
proof -
  have "\<exists>xs. save_all io xs disk [] = (Some (WriteError p), d', b') \<and> distinct (map fst xs)
            \<and> set (save_targets a) = fst ` set xs"
  proof (cases "length (dicom_files a) > 1")
    case True
    then show ?thesis using s dist by (auto simp add: save_attempt_def save_targets_def)
  next
    case False
    note single = this
    have ss: "save_single io a disk = (Some (WriteError p), d', b')"
      using s single by (simp add: save_attempt_def)
    show ?thesis
    proof (cases "current_file a")
      case (Inl e)
      then have "e = WriteError p" using ss save_single_Inl [of a e io disk] by simp
      then show ?thesis using Inl by (simp add: current_file_def split: if_splits)
    next
      case (Inr q)
      show ?thesis
      proof (cases "dataset a")
        case None
        then show ?thesis using save_single_None [OF Inr None ss] by simp
      next
        case (Some ds)
        have "save_all io [(q, ds)] disk [] = (Some (WriteError p), d', b')"
          using ss save_single_Some [OF Inr Some] by simp
        moreover have "set (save_targets a) = fst ` set [(q, ds)]"
          using single Inr by (simp add: save_targets_def)
        moreover have "distinct (map fst [(q, ds)])" by simp
        ultimately show ?thesis by blast
      qed
    qed
  qed
  then obtain xs where xs: "save_all io xs disk [] = (Some (WriteError p), d', b')"
    and d: "distinct (map fst xs)" and t: "set (save_targets a) = fst ` set xs" by blast
  obtain ds where m: "(p, ds) \<in> set xs" and bk: "d' (backup_path_of p) \<noteq> None"
    and w: "disk p \<noteq> None \<longrightarrow> save_as io ds p (disk p) = WriteRaised (d' p)"
    using save_all_write_failed [OF xs d] by blast
  show "p \<in> set (save_targets a)" using m t by force
  show "d' (backup_path_of p) \<noteq> None" using bk .
  show "disk p \<noteq> None \<Longrightarrow> \<exists>ds. save_as io ds p (disk p) = WriteRaised (d' p)"
    using w by blast
qed

lemma action_save_file_clean:
  "\<not> has_changes a \<Longrightarrow> action_save_file io a disk = (Inr PyNone, a, disk)"
  by (simp add: action_save_file_def)

lemma action_save_file_failed:
  "has_changes a \<Longrightarrow> save_attempt io a disk = (Some e, d', b') \<Longrightarrow>
     action_save_file io a disk = (Inr PyNone, a, d')"
  by (simp add: action_save_file_def)

lemma action_save_file_saved:
  "has_changes a \<Longrightarrow> save_attempt io a disk = (None, d', b') \<Longrightarrow>
     action_save_file io a disk
       = (Inr PyNone, a\<lparr>has_changes := False\<rparr>, cleanup_backup_files io d' b')"
  by (simp add: action_save_file_def)

lemma action_save_file_returns_None: "fst (action_save_file io a disk) = Inr PyNone"
  by (simp add: action_save_file_def split: prod.splits option.splits)

lemma action_save_file_frame:
  assumes x: "disk x = Some old" and nt: "x \<notin> set (save_targets a)"
  shows "snd (snd (action_save_file io a disk)) x = Some old"
proof (cases "has_changes a")
  case False
  then show ?thesis using x by (simp add: action_save_file_clean)
next
  case True
  obtain r d' b' where s: "save_attempt io a disk = (r, d', b')"
    by (cases "save_attempt io a disk")
  have xx: "disk x \<noteq> None" using x by simp
  have d: "d' x = Some old" using save_attempt_frame [OF s xx nt] x by simp
  show ?thesis
  proof (cases r)
    case None
    have "x \<notin> set b'" using save_attempt_bks [OF s, of x] x by auto
    then show ?thesis
      using action_save_file_saved [OF True, of io disk d' b'] s None d
      by (simp add: cleanup_notin)
  next
    case (Some e)
    then show ?thesis using action_save_file_failed [OF True, of io disk e d' b'] s d by simp
  qed
qed

lemma backup_step_keeps_existing_backup:
  "(disk (backup_path_of p) \<noteq> None \<longrightarrow> backup_step disk bks p = Inr (disk, bks))
   \<and> (disk (backup_path_of p) = None \<and> disk p = Some b \<longrightarrow>
        backup_step disk bks p = Inr (disk(backup_path_of p \<mapsto> b), bks @ [backup_path_of p]))
   \<and> (disk (backup_path_of p) = Some old \<and> backup_path_of p \<notin> set (save_targets a) \<longrightarrow>
        snd (snd (action_save_file io a disk)) (backup_path_of p) = Some old)"
  using backup_step_present [of disk p bks] backup_step_copy [of disk p b bks]
    action_save_file_frame [of disk "backup_path_of p" old a io]
  by blast

text \<open>
  C2, amended. After a save that succeeds for the whole batch, \<^verbatim>\<open>has_changes\<close> is
  cleared and, for every file of the batch, the backup that this save made is gone
  (the files of the batch being on disk when the save starts, and the deletion
  succeeding), while a backup that already existed before the save is still there: the
  clean-up deletes only the backups in \<^verbatim>\<open>backup_files\<close>, those this call created.
\<close>

theorem successful_save_removes_its_backups:
  "has_changes a \<and> fst (save_attempt io a disk) = None \<longrightarrow>
     has_changes (fst (snd (action_save_file io a disk))) = False
     \<and> (\<forall>p \<in> set (save_targets a).
          (disk (backup_path_of p) = None \<and> unlink_ok io (backup_path_of p)
             \<and> (\<forall>q \<in> set (save_targets a). disk q \<noteq> None) \<longrightarrow>
           snd (snd (action_save_file io a disk)) (backup_path_of p) = None)
          \<and> (disk (backup_path_of p) \<noteq> None \<longrightarrow>
               snd (snd (action_save_file io a disk)) (backup_path_of p) \<noteq> None))"
proof
  assume h: "has_changes a \<and> fst (save_attempt io a disk) = None"
  then obtain d' b' where s: "save_attempt io a disk = (None, d', b')"
    by (cases "save_attempt io a disk") auto
  have act: "action_save_file io a disk
       = (Inr PyNone, a\<lparr>has_changes := False\<rparr>, cleanup_backup_files io d' b')"
    using action_save_file_saved [of a io disk d' b'] h s by simp
  have A: "snd (snd (action_save_file io a disk)) (backup_path_of p) = None"
    if "p \<in> set (save_targets a)" and "disk (backup_path_of p) = None"
      and "unlink_ok io (backup_path_of p)" and "\<forall>q \<in> set (save_targets a). disk q \<noteq> None" for p
  proof -
    have "backup_path_of p \<in> set b'"
      using save_attempt_complete(2) [OF s that(1) that(2) that(4)] .
    then show ?thesis using that(3) by (simp add: act cleanup_deleted)
  qed
  have B: "snd (snd (action_save_file io a disk)) (backup_path_of p) \<noteq> None"
    if "disk (backup_path_of p) \<noteq> None" for p
  proof -
    have "d' (backup_path_of p) \<noteq> None" using save_attempt_complete(1) [OF s that] .
    moreover have "backup_path_of p \<notin> set b'"
      using save_attempt_bks [OF s, of "backup_path_of p"] that by auto
    ultimately show ?thesis by (simp add: act cleanup_notin)
  qed
  show "has_changes (fst (snd (action_save_file io a disk))) = False
     \<and> (\<forall>p \<in> set (save_targets a).
          (disk (backup_path_of p) = None \<and> unlink_ok io (backup_path_of p)
             \<and> (\<forall>q \<in> set (save_targets a). disk q \<noteq> None) \<longrightarrow>
           snd (snd (action_save_file io a disk)) (backup_path_of p) = None)
          \<and> (disk (backup_path_of p) \<noteq> None \<longrightarrow>
               snd (snd (action_save_file io a disk)) (backup_path_of p) \<noteq> None))"
    using A B by (simp add: act)
qed

text \<open>
  C1, amended. When the codec's write fails for a file during a save, then after the call
  the backup of that file exists, the state is unchanged with \<^verbatim>\<open>has_changes\<close> still set,
  and the original file holds what the failed write left there: its content before the
  save, whenever a failing write leaves the file as it found it (the code itself never
  touches it). The call returns \<^verbatim>\<open>None\<close>; no failure is reported to the caller.
\<close>

theorem failed_save_keeps_backup:
  "has_changes a \<and> fst (save_attempt io a disk) = Some (WriteError p)
     \<and> distinct (map fst (all_datasets a)) \<longrightarrow>
   p \<in> set (save_targets a)
   \<and> snd (snd (action_save_file io a disk)) (backup_path_of p) \<noteq> None
   \<and> fst (snd (action_save_file io a disk)) = a
   \<and> has_changes (fst (snd (action_save_file io a disk)))
   \<and> fst (action_save_file io a disk) = Inr PyNone
   \<and> (disk p \<noteq> None \<and> (\<forall>ds before left. save_as io ds p before = WriteRaised left \<longrightarrow> left = before) \<longrightarrow>
        snd (snd (action_save_file io a disk)) p = disk p)"
proof
  assume h: "has_changes a \<and> fst (save_attempt io a disk) = Some (WriteError p)
     \<and> distinct (map fst (all_datasets a))"
  then obtain d' b' where s: "save_attempt io a disk = (Some (WriteError p), d', b')"
    by (cases "save_attempt io a disk") auto
  have dist: "distinct (map fst (all_datasets a))" using h by simp
  have act: "action_save_file io a disk = (Inr PyNone, a, d')"
    using action_save_file_failed [of a io disk "WriteError p" d' b'] h s by simp
  have C: "d' p = disk p"
    if ex: "disk p \<noteq> None"
      and atomic: "\<forall>ds before left. save_as io ds p before = WriteRaised left \<longrightarrow> left = before"
  proof -
    have "\<exists>ds. save_as io ds p (disk p) = WriteRaised (d' p)"
      using save_attempt_write_failed(3) [OF s dist ex] .
    then show ?thesis using atomic by metis
  qed
  show "p \<in> set (save_targets a)
   \<and> snd (snd (action_save_file io a disk)) (backup_path_of p) \<noteq> None
   \<and> fst (snd (action_save_file io a disk)) = a
   \<and> has_changes (fst (snd (action_save_file io a disk)))
   \<and> fst (action_save_file io a disk) = Inr PyNone
   \<and> (disk p \<noteq> None \<and> (\<forall>ds before left. save_as io ds p before = WriteRaised left \<longrightarrow> left = before) \<longrightarrow>
        snd (snd (action_save_file io a disk)) p = disk p)"
    using save_attempt_write_failed(1,2) [OF s dist] C h by (simp add: act)
qed

lemma example_backup_paths:
  "backup_path_of ''a.dcm'' = ''a.dcm.bak''"
  "backup_path_of ''b.dcm'' = ''b.dcm.bak''"
  "backup_path_of ''c.dcm'' = ''c.dcm.bak''"
  by (simp_all add: backup_path_of_def)

lemmas example_save_defs =
  save_attempt_def save_single_def save_one_def backup_step_def copy2_def Let_def
  current_file_def example_app3_def example_app1_def example_disk_def example_disk_bak_def
  example_io_ok_def example_io_fail_def example_io_fail_all_def example_backup_paths

lemma example_failed_bulk_save:
  "save_attempt example_io_fail (example_app3\<lparr>has_changes := True\<rparr>) example_disk
     = (Some (WriteError ''b.dcm''),
        example_disk(''a.dcm.bak'' \<mapsto> [1], ''a.dcm'' \<mapsto> [7], ''b.dcm.bak'' \<mapsto> [2], ''b.dcm'' \<mapsto> [2]),
        [''a.dcm.bak'', ''b.dcm.bak''])"
  by (auto simp add: example_save_defs fun_eq_iff)

lemma example_ok_bulk_save:
  "save_attempt example_io_ok (example_app3\<lparr>has_changes := True\<rparr>) example_disk
     = (None,
        example_disk(''a.dcm.bak'' \<mapsto> [1], ''a.dcm'' \<mapsto> [7], ''b.dcm.bak'' \<mapsto> [2], ''b.dcm'' \<mapsto> [7],
          ''c.dcm.bak'' \<mapsto> [3], ''c.dcm'' \<mapsto> [7]),
        [''a.dcm.bak'', ''b.dcm.bak'', ''c.dcm.bak''])"
  by (simp add: example_save_defs)

lemma example_ok_single_save_bak:
  "save_attempt example_io_ok (example_app1\<lparr>has_changes := True\<rparr>) example_disk_bak
     = (None, example_disk_bak(''a.dcm'' \<mapsto> [7]), [])"
  by (simp add: example_save_defs)

lemma example_ok_bulk_save_bak:
  "save_attempt example_io_ok (example_app3\<lparr>has_changes := True\<rparr>) example_disk_bak
     = (None,
        example_disk_bak(''a.dcm'' \<mapsto> [7], ''b.dcm.bak'' \<mapsto> [2], ''b.dcm'' \<mapsto> [7],
          ''c.dcm.bak'' \<mapsto> [3], ''c.dcm'' \<mapsto> [7]),
        [''b.dcm.bak'', ''c.dcm.bak''])"
  by (simp add: example_save_defs)

text \<open>
  C1, as stated, fails on the report: a save of the three files in which the write of
  \<^verbatim>\<open>b.dcm\<close> fails returns \<^verbatim>\<open>None\<close> and raises nothing, exactly as a successful save does;
  \<^verbatim>\<open>except Exception as e: pass\<close> swallows the failure.
\<close>

theorem failed_save_reports_nothing:
  "fst (save_attempt example_io_fail (example_app3\<lparr>has_changes := True\<rparr>) example_disk)
     = Some (WriteError ''b.dcm'')
   \<and> fst (action_save_file example_io_fail (example_app3\<lparr>has_changes := True\<rparr>) example_disk)
       = Inr PyNone
   \<and> (\<forall>e. fst (action_save_file example_io_fail (example_app3\<lparr>has_changes := True\<rparr>) example_disk)
        \<noteq> Inl e)
   \<and> fst (action_save_file example_io_ok (example_app3\<lparr>has_changes := True\<rparr>) example_disk)
       = Inr PyNone"
  by (simp add: example_failed_bulk_save action_save_file_returns_None)

theorem failed_save_keeps_backup_witness:
  "has_changes (example_app3\<lparr>has_changes := True\<rparr>)
   \<and> fst (save_attempt example_io_fail (example_app3\<lparr>has_changes := True\<rparr>) example_disk)
       = Some (WriteError ''b.dcm'')
   \<and> distinct (map fst (all_datasets (example_app3\<lparr>has_changes := True\<rparr>)))
   \<and> example_disk ''b.dcm'' = Some [2]
   \<and> snd (snd (action_save_file example_io_fail (example_app3\<lparr>has_changes := True\<rparr>) example_disk))
        (backup_path_of ''b.dcm'') = Some [2]
   \<and> snd (snd (action_save_file example_io_fail (example_app3\<lparr>has_changes := True\<rparr>) example_disk))
        ''b.dcm'' = Some [2]
   \<and> has_changes (fst (snd (action_save_file example_io_fail (example_app3\<lparr>has_changes := True\<rparr>)
        example_disk)))
   \<and> fst (action_save_file example_io_fail (example_app3\<lparr>has_changes := True\<rparr>) example_disk)
       = Inr PyNone"
  using failed_save_keeps_backup [of "example_app3\<lparr>has_changes := True\<rparr>" example_io_fail
      example_disk "''b.dcm''"]
  by (simp add: example_failed_bulk_save action_save_file_def)
    (simp add: example_app3_def example_disk_def example_backup_paths)

text \<open>
  C2, as stated, fails for a backup that already existed: a successful save of \<^verbatim>\<open>a.dcm\<close>
  on a disk that holds \<^verbatim>\<open>a.dcm.bak\<close> from before leaves that backup on disk.
\<close>

theorem preexisting_backup_survives_successful_save:
  "fst (save_attempt example_io_ok (example_app1\<lparr>has_changes := True\<rparr>) example_disk_bak) = None
   \<and> has_changes (fst (snd (action_save_file example_io_ok (example_app1\<lparr>has_changes := True\<rparr>)
        example_disk_bak))) = False
   \<and> snd (snd (action_save_file example_io_ok (example_app1\<lparr>has_changes := True\<rparr>) example_disk_bak))
        ''a.dcm'' = Some [7]
   \<and> example_disk_bak (backup_path_of ''a.dcm'') = Some [9]
   \<and> snd (snd (action_save_file example_io_ok (example_app1\<lparr>has_changes := True\<rparr>) example_disk_bak))
        (backup_path_of ''a.dcm'') = Some [9]"
  by (simp add: example_ok_single_save_bak action_save_file_def)
    (simp add: example_disk_bak_def example_backup_paths)

theorem successful_save_removes_its_backups_witness:
  "has_changes (example_app3\<lparr>has_changes := True\<rparr>)
   \<and> fst (save_attempt example_io_ok (example_app3\<lparr>has_changes := True\<rparr>) example_disk_bak) = None
   \<and> save_targets (example_app3\<lparr>has_changes := True\<rparr>) = [''a.dcm'', ''b.dcm'', ''c.dcm'']
   \<and> has_changes (fst (snd (action_save_file example_io_ok (example_app3\<lparr>has_changes := True\<rparr>)
        example_disk_bak))) = False
   \<and> example_disk_bak (backup_path_of ''b.dcm'') = None
   \<and> snd (snd (action_save_file example_io_ok (example_app3\<lparr>has_changes := True\<rparr>) example_disk_bak))
        (backup_path_of ''b.dcm'') = None
   \<and> snd (snd (action_save_file example_io_ok (example_app3\<lparr>has_changes := True\<rparr>) example_disk_bak))
        (backup_path_of ''c.dcm'') = None
   \<and> snd (snd (action_save_file example_io_ok (example_app3\<lparr>has_changes := True\<rparr>) example_disk_bak))
        (backup_path_of ''a.dcm'') = Some [9]
   \<and> snd (snd (action_save_file example_io_ok (example_app3\<lparr>has_changes := True\<rparr>) example_disk_bak))
        ''b.dcm'' = Some [7]"
  using successful_save_removes_its_backups [of "example_app3\<lparr>has_changes := True\<rparr>" example_io_ok
      example_disk_bak]
  by (simp add: example_ok_bulk_save_bak action_save_file_def)
    (simp add: example_app3_def example_disk_bak_def example_disk_def example_io_ok_def
      example_backup_paths save_targets_def)

text \<open>
  C4. The backup step itself keeps an existing backup, but a later save does not: a
  leftover \<^verbatim>\<open>a.dcm.bak\<close> that was loaded as a file of the batch is written like any other
  file. On such a batch the step for \<^verbatim>\<open>a.dcm\<close> finds the backup and copies nothing, the
  save succeeds, and afterwards \<^verbatim>\<open>a.dcm.bak\<close> holds the newly encoded bytes instead of the
  bytes it protected; the copy made of it in turn, \<^verbatim>\<open>a.dcm.bak.bak\<close>, is cleaned up.
\<close>

theorem leftover_backup_overwritten_by_save:
  "save_targets example_app_leftover = [''a.dcm'', backup_path_of ''a.dcm'']
   \<and> example_disk_bak (backup_path_of ''a.dcm'') = Some [9]
   \<and> backup_step example_disk_bak [] ''a.dcm'' = Inr (example_disk_bak, [])
   \<and> fst (save_attempt example_io_ok example_app_leftover example_disk_bak) = None
   \<and> snd (snd (action_save_file example_io_ok example_app_leftover example_disk_bak))
        (backup_path_of ''a.dcm'') = Some [7]
   \<and> snd (snd (action_save_file example_io_ok example_app_leftover example_disk_bak))
        (backup_path_of (backup_path_of ''a.dcm'')) = None"
proof -
  have s: "save_attempt example_io_ok example_app_leftover example_disk_bak
     = (None,
        example_disk_bak(''a.dcm'' \<mapsto> [7], ''a.dcm.bak.bak'' \<mapsto> [9], ''a.dcm.bak'' \<mapsto> [7]),
        [''a.dcm.bak.bak''])"
    by (simp add: save_attempt_def save_one_def backup_step_def copy2_def Let_def
        example_app_leftover_def example_disk_def example_disk_bak_def example_io_ok_def
        backup_path_of_def)
  have h: "has_changes example_app_leftover"
    by (simp add: example_app_leftover_def)
  have a: "action_save_file example_io_ok example_app_leftover example_disk_bak
     = (Inr PyNone, example_app_leftover\<lparr>has_changes := False\<rparr>,
        cleanup_backup_files example_io_ok
          (example_disk_bak(''a.dcm'' \<mapsto> [7], ''a.dcm.bak.bak'' \<mapsto> [9], ''a.dcm.bak'' \<mapsto> [7]))
          [''a.dcm.bak.bak''])"
    using h s by (simp add: action_save_file_def)
  show ?thesis
    by (simp add: a s)
      (simp add: save_targets_def example_app_leftover_def example_disk_bak_def example_disk_def
        example_io_ok_def backup_step_def Let_def backup_path_of_def)
qed

end
